theory Spec2Isabelle
  imports Main "HOL-Library.Word"
begin

section \<open>Data model (internal/templates/models.go, repository.go)\<close>

text \<open>
  Go's \<open>int\<close> is a 64-bit two's complement integer on the platforms the service is
  built for: \<open>+\<close> and \<open>++\<close> wrap around, comparisons read the value as signed
  (\<open>sint\<close>, \<open><s\<close>, \<open>\<le>s\<close>). A \<open>time.Time\<close> is only compared and copied, so an
  instant is an integer. A Go \<open>string\<close> is a byte sequence and \<open>len\<close> counts bytes.
\<close>

type_synonym go_int = "64 word"
type_synonym time = int

definition DocumentTypeWarranty :: string where "DocumentTypeWarranty = ''warranty''"
definition DocumentTypeInstruction :: string where "DocumentTypeInstruction = ''instruction''"
definition DocumentTypeCertificate :: string where "DocumentTypeCertificate = ''certificate''"
definition DocumentTypeLabel :: string where "DocumentTypeLabel = ''label''"

definition PageSizeA4 :: string where "PageSizeA4 = ''A4''"
definition PageSizeA5 :: string where "PageSizeA5 = ''A5''"
definition PageSizeLetter :: string where "PageSizeLetter = ''Letter''"

definition OrientationPortrait :: string where "OrientationPortrait = ''portrait''"
definition OrientationLandscape :: string where "OrientationLandscape = ''landscape''"

record Template =
  TemplateID :: string
  TenantID :: string
  Name :: string
  Description :: string
  DocumentType :: string
  PageSize :: string
  Orientation :: string
  JSONSchemaURL :: string
  ThumbnailURL :: string
  Version :: go_int
  CreatedBy :: string
  UpdatedBy :: string
  CreatedAt :: time
  UpdatedAt :: time
  DeletedAt :: "time option"
  DocumentsCount :: go_int
  LastUsedAt :: "time option"

text \<open>
  The fields of \<open>TemplateVersion\<close> that share a name with a field of \<open>Template\<close>
  (\<open>TemplateID\<close>, \<open>JSONSchemaURL\<close>, \<open>CreatedBy\<close>, \<open>CreatedAt\<close>) carry the prefix \<open>V\<close>.
\<close>

record TemplateVersion =
  VersionID :: string
  VTemplateID :: string
  VersionNumber :: go_int
  ChangeSummary :: string
  VJSONSchemaURL :: string
  VCreatedBy :: string
  VCreatedAt :: time
  IsCurrent :: bool

text \<open>
  Errors are values. \<open>ErrorNew m\<close> is \<open>errors.New(m)\<close>, \<open>Errorf p e\<close> is
  \<open>fmt.Errorf(p + ": %w", e)\<close>, and \<open>errors_Is\<close> follows the chain of wrapped errors.
\<close>

datatype error =
    ErrNotFound
  | ErrConflict
  | ErrInvalidInput
  | ErrorNew string
  | Errorf string error

fun errors_Is :: "error \<Rightarrow> error \<Rightarrow> bool" where
  "errors_Is (Errorf p e) target = (Errorf p e = target \<or> errors_Is e target)"
| "errors_Is e target = (e = target)"

record ListOptions =
  LTenantID :: string
  Search :: string
  LDocumentType :: string
  IncludeDeleted :: bool
  Limit :: go_int
  Offset :: go_int

record DuplicateOptions =
  DCreatedBy :: string
  DUpdatedBy :: string
  CopyVersions :: bool
  NameOverride :: string
  DescriptionOverride :: string

record VersionComparison =
  CTemplateID :: string
  Left :: TemplateVersion
  Right :: TemplateVersion
  Summary :: string

section \<open>Library functions the code calls\<close>

text \<open>
  \<open>strings.TrimSpace\<close> removes the white space runes at both ends of a string, first those
  at the front, then those at the end of what is left. On the bytes of a string, a white
  space rune is one of the byte sequences of \<open>spaceRunes\<close>: the six ASCII spaces (tab,
  line feed, vertical tab, form feed, carriage return, space) and the UTF-8 encodings of
  U+0085, U+00A0, U+1680, U+2000 to U+200A, U+2028, U+2029, U+202F, U+205F and U+3000.
  Every other byte sequence, well-formed or not, decodes to a rune that is not white
  space, and no sequence of the list starts with a continuation byte, so decoding from the
  front and from the end both come to testing for these sequences.
\<close>

definition spaceRunes :: "string list" where
  "spaceRunes =
     [[CHR 0x09], [CHR 0x0A], [CHR 0x0B], [CHR 0x0C], [CHR 0x0D], [CHR 0x20],
      [CHR 0xC2, CHR 0x85], [CHR 0xC2, CHR 0xA0],
      [CHR 0xE1, CHR 0x9A, CHR 0x80],
      [CHR 0xE2, CHR 0x80, CHR 0x80], [CHR 0xE2, CHR 0x80, CHR 0x81],
      [CHR 0xE2, CHR 0x80, CHR 0x82], [CHR 0xE2, CHR 0x80, CHR 0x83],
      [CHR 0xE2, CHR 0x80, CHR 0x84], [CHR 0xE2, CHR 0x80, CHR 0x85],
      [CHR 0xE2, CHR 0x80, CHR 0x86], [CHR 0xE2, CHR 0x80, CHR 0x87],
      [CHR 0xE2, CHR 0x80, CHR 0x88], [CHR 0xE2, CHR 0x80, CHR 0x89],
      [CHR 0xE2, CHR 0x80, CHR 0x8A],
      [CHR 0xE2, CHR 0x80, CHR 0xA8], [CHR 0xE2, CHR 0x80, CHR 0xA9],
      [CHR 0xE2, CHR 0x80, CHR 0xAF], [CHR 0xE2, CHR 0x81, CHR 0x9F],
      [CHR 0xE3, CHR 0x80, CHR 0x80]]"

text \<open>\<open>trimPrefix qs s\<close> removes from the front of \<open>s\<close> the sequences of \<open>qs\<close>, as long as
  there is one.\<close>

function trimPrefix :: "string list \<Rightarrow> string \<Rightarrow> string" where
  "trimPrefix qs s =
     (case find (\<lambda>q. q \<noteq> [] \<and> take (length q) s = q) qs of
        None \<Rightarrow> s
      | Some q \<Rightarrow> trimPrefix qs (drop (length q) s))"
  by pat_completeness auto
termination
proof (relation "measure (\<lambda>(qs, s). length s)")
  show "wf (measure (\<lambda>(qs, s). length s))" by simp
next
  fix qs :: "string list" and s q :: string
  assume "find (\<lambda>q. q \<noteq> [] \<and> take (length q) s = q) qs = Some q"
  then have "q \<noteq> []" and "take (length q) s = q"
    by (auto simp: find_Some_iff)
  then have "0 < length q" and "length q \<le> length s"
    by (auto simp: min_def dest: arg_cong [where f = length] split: if_splits)
  then show "((qs, drop (length q) s), (qs, s)) \<in> measure (\<lambda>(qs, s). length s)"
    by (cases q) simp_all
qed

declare trimPrefix.simps [simp del]

definition TrimSpace :: "string \<Rightarrow> string" where
  "TrimSpace s = rev (trimPrefix (map rev spaceRunes) (rev (trimPrefix spaceRunes s)))"

text \<open>
  \<open>strings.ToLower\<close> follows the case tables of Unicode, which are not written out here:
  the functions of the listing take the lowering function as the parameter \<open>lower\<close>, and
  what is proved of them holds for every \<open>lower\<close>. The validation of a template and the
  listing take the trimming function as the parameter \<open>trim\<close> in the same way; the
  service and the repository pass \<open>TrimSpace\<close>. \<open>ToLowerASCII\<close> is what
  \<open>strings.ToLower\<close> computes on ASCII text (it adds 32 to the letters \<open>A\<close> to \<open>Z\<close>);
  the examples, whose text is ASCII, pass it. \<open>strings.Contains\<close> looks for a sequence of
  bytes.
\<close>

definition lowerChar :: "char \<Rightarrow> char" where
  "lowerChar c =
     (if (65::nat) \<le> of_char c \<and> of_char c \<le> (90::nat)
      then char_of (of_char c + (32::nat)) else c)"

definition ToLowerASCII :: "string \<Rightarrow> string" where
  "ToLowerASCII s = map lowerChar s"

fun Contains :: "string \<Rightarrow> string \<Rightarrow> bool" where
  "Contains [] sub = (sub = [])"
| "Contains (c # cs) sub = (take (length sub) (c # cs) = sub \<or> Contains cs sub)"

section \<open>Validation (models.go)\<close>

definition Template_Validate :: "(string \<Rightarrow> string) \<Rightarrow> Template \<Rightarrow> error option" where
  "Template_Validate trim t =
     (if TenantID t = [] then Some (ErrorNew ''tenant_id is required'')
      else if length (trim (Name t)) < 3 \<or> length (Name t) > 100
        then Some (ErrorNew ''name must be between 3 and 100 characters'')
      else if length (Description t) > 500
        then Some (ErrorNew ''description must be <= 500 characters'')
      else if \<not> (DocumentType t = DocumentTypeWarranty \<or> DocumentType t = DocumentTypeInstruction
                \<or> DocumentType t = DocumentTypeCertificate \<or> DocumentType t = DocumentTypeLabel)
        then Some (ErrorNew ''document_type is invalid'')
      else if \<not> (PageSize t = PageSizeA4 \<or> PageSize t = PageSizeA5 \<or> PageSize t = PageSizeLetter)
        then Some (ErrorNew ''page_size is invalid'')
      else if \<not> (Orientation t = OrientationPortrait \<or> Orientation t = OrientationLandscape)
        then Some (ErrorNew ''orientation is invalid'')
      else if JSONSchemaURL t = [] then Some (ErrorNew ''json_schema_url is required'')
      else if CreatedBy t = [] then Some (ErrorNew ''created_by is required'')
      else if UpdatedBy t = [] then Some (ErrorNew ''updated_by is required'')
      else None)"

definition TemplateVersion_Validate :: "TemplateVersion \<Rightarrow> error option" where
  "TemplateVersion_Validate tv =
     (if VTemplateID tv = [] then Some (ErrorNew ''template_id is required'')
      else if VersionNumber tv \<le>s 0 then Some (ErrorNew ''version_number must be positive'')
      else if VJSONSchemaURL tv = [] then Some (ErrorNew ''json_schema_url is required'')
      else if VCreatedBy tv = [] then Some (ErrorNew ''created_by is required'')
      else None)"

text \<open>The checks of \<open>Template.Validate\<close> on every field but the name.\<close>

definition other_fields_valid :: "Template \<Rightarrow> bool" where
  "other_fields_valid t =
     (TenantID t \<noteq> [] \<and> length (Description t) \<le> 500
      \<and> DocumentType t \<in> set [DocumentTypeWarranty, DocumentTypeInstruction,
                               DocumentTypeCertificate, DocumentTypeLabel]
      \<and> PageSize t \<in> set [PageSizeA4, PageSizeA5, PageSizeLetter]
      \<and> Orientation t \<in> set [OrientationPortrait, OrientationLandscape]
      \<and> JSONSchemaURL t \<noteq> [] \<and> CreatedBy t \<noteq> [] \<and> UpdatedBy t \<noteq> [])"

section \<open>The in-memory repository (service.go)\<close>

text \<open>
  The repository is two Go maps behind one lock; every method holds the lock for its whole
  body, so a method is one atomic step from a state to a state. A method that returns an
  error has not written to either map: \<open>Inl e\<close> carries no state. Reading a key that
  \<open>versions\<close> does not have gives the nil slice.
\<close>

record inMemoryRepository =
  templates :: "string \<rightharpoonup> Template"
  versions :: "string \<rightharpoonup> TemplateVersion list"

definition NewInMemoryRepository :: inMemoryRepository where
  "NewInMemoryRepository = \<lparr>templates = Map.empty, versions = Map.empty\<rparr>"

definition versionsOf :: "inMemoryRepository \<Rightarrow> string \<Rightarrow> TemplateVersion list" where
  "versionsOf r k = (case versions r k of None \<Rightarrow> [] | Some vs \<Rightarrow> vs)"

subsection \<open>Listing\<close>

text \<open>The filter of the loops of \<open>ListTemplates\<close> and \<open>CountTemplates\<close>: a template is
  kept when none of the four \<open>continue\<close> conditions holds.\<close>

definition listed :: "(string \<Rightarrow> string) \<Rightarrow> ListOptions \<Rightarrow> string \<Rightarrow> Template \<Rightarrow> bool" where
  "listed lower opt search tpl =
     (if TenantID tpl \<noteq> LTenantID opt then False
      else if \<not> IncludeDeleted opt \<and> DeletedAt tpl \<noteq> None then False
      else if LDocumentType opt \<noteq> [] \<and> DocumentType tpl \<noteq> LDocumentType opt then False
      else if search \<noteq> [] \<and> \<not> Contains (lower (Name tpl)) search
              \<and> \<not> Contains (lower (Description tpl)) search then False
      else True)"

text \<open>
  A slice expression \<open>xs[lo:hi]\<close> panics unless \<open>0 \<le> lo \<le> hi \<le> cap(xs)\<close>. The bound
  below is the length: \<open>ListTemplates\<close> never passes a \<open>hi\<close> above it, and the capacity is
  at least the length.
\<close>

datatype panic = SliceBoundsOutOfRange

definition slice :: "'a list \<Rightarrow> int \<Rightarrow> int \<Rightarrow> panic + 'a list" where
  "slice xs lo hi =
     (if 0 \<le> lo \<and> lo \<le> hi \<and> hi \<le> int (length xs)
      then Inr (take (nat (hi - lo)) (drop (nat lo) xs))
      else Inl SliceBoundsOutOfRange)"

text \<open>
  Go ranges over a map in an order of its own choosing, and \<open>sort.Slice\<close> is not stable:
  \<open>keys\<close> is the order in which the range visits the keys of \<open>templates\<close>, and the sort
  (by \<open>UpdatedAt\<close>, latest first) is the stable one. Every result of an unstable sort is
  the result of the stable sort for some order of visit, so a statement for every
  \<open>keys\<close> covers every run. The values of \<open>start\<close> and \<open>end\<close> are read as signed
  integers; the one addition wraps around in 64 bits.
\<close>

definition matching ::
  "(string \<Rightarrow> string) \<Rightarrow> (string \<Rightarrow> string) \<Rightarrow> string list \<Rightarrow> inMemoryRepository \<Rightarrow> ListOptions
     \<Rightarrow> Template list" where
  "matching lower trim keys r opt =
     filter (listed lower opt (lower (trim (Search opt)))) (List.map_filter (templates r) keys)"

definition ListTemplates ::
  "(string \<Rightarrow> string) \<Rightarrow> (string \<Rightarrow> string) \<Rightarrow> string list \<Rightarrow> inMemoryRepository \<Rightarrow> ListOptions
     \<Rightarrow> panic + (Template list \<times> error option)" where
  "ListTemplates lower trim keys r opt =
     (let result = sort_key (\<lambda>t. - UpdatedAt t) (matching lower trim keys r opt);
          start = sint (Offset opt)
      in if start > int (length result) then Inr ([], None)
         else
           let end0 = sint (Offset opt + Limit opt);
               stop = (if Limit opt \<le>s 0 \<or> end0 > int (length result)
                       then int (length result) else end0)
           in (case slice result start stop of
                 Inl p \<Rightarrow> Inl p
               | Inr page \<Rightarrow> Inr (page, None)))"

definition CountTemplates ::
  "(string \<Rightarrow> string) \<Rightarrow> (string \<Rightarrow> string) \<Rightarrow> string list \<Rightarrow> inMemoryRepository \<Rightarrow> ListOptions
     \<Rightarrow> int \<times> error option" where
  "CountTemplates lower trim keys r opt = (int (length (matching lower trim keys r opt)), None)"

subsection \<open>Templates\<close>

definition Repo_GetTemplate :: "inMemoryRepository \<Rightarrow> string \<Rightarrow> string \<Rightarrow> error + Template" where
  "Repo_GetTemplate r tenantID templateID =
     (case templates r templateID of
        None \<Rightarrow> Inl ErrNotFound
      | Some tpl \<Rightarrow> if TenantID tpl \<noteq> tenantID then Inl ErrNotFound else Inr tpl)"

definition Repo_CreateTemplate ::
  "inMemoryRepository \<Rightarrow> Template \<Rightarrow> error + (Template \<times> inMemoryRepository)" where
  "Repo_CreateTemplate r tpl =
     (case templates r (TemplateID tpl) of
        Some existing \<Rightarrow> Inl ErrConflict
      | None \<Rightarrow> Inr (tpl, r\<lparr>templates := (templates r)(TemplateID tpl \<mapsto> tpl)\<rparr>))"

definition Repo_UpdateTemplate ::
  "inMemoryRepository \<Rightarrow> Template \<Rightarrow> error + (Template \<times> inMemoryRepository)" where
  "Repo_UpdateTemplate r tpl =
     (case templates r (TemplateID tpl) of
        None \<Rightarrow> Inl ErrNotFound
      | Some existing \<Rightarrow>
          if TenantID existing \<noteq> TenantID tpl then Inl ErrNotFound
          else Inr (tpl, r\<lparr>templates := (templates r)(TemplateID tpl \<mapsto> tpl)\<rparr>))"

definition Repo_SoftDeleteTemplate ::
  "time \<Rightarrow> inMemoryRepository \<Rightarrow> string \<Rightarrow> string \<Rightarrow> error + inMemoryRepository" where
  "Repo_SoftDeleteTemplate now r tenantID templateID =
     (case templates r templateID of
        None \<Rightarrow> Inl ErrNotFound
      | Some tpl \<Rightarrow>
          if TenantID tpl \<noteq> tenantID then Inl ErrNotFound
          else Inr (r\<lparr>templates := (templates r)(templateID \<mapsto> tpl\<lparr>DeletedAt := Some now\<rparr>)\<rparr>))"

definition Repo_RestoreTemplate ::
  "inMemoryRepository \<Rightarrow> string \<Rightarrow> string \<Rightarrow> error + (Template \<times> inMemoryRepository)" where
  "Repo_RestoreTemplate r tenantID templateID =
     (case templates r templateID of
        None \<Rightarrow> Inl ErrNotFound
      | Some tpl \<Rightarrow>
          if TenantID tpl \<noteq> tenantID then Inl ErrNotFound
          else Inr (tpl\<lparr>DeletedAt := None\<rparr>,
                    r\<lparr>templates := (templates r)(templateID \<mapsto> tpl\<lparr>DeletedAt := None\<rparr>)\<rparr>))"

text \<open>
  \<open>newID\<close> is not defined in the files at hand and \<open>time.Now\<close> is the clock: \<open>newID i\<close>
  is the identifier that the call number \<open>i\<close> (from 0) of \<open>newID()\<close> returns while an
  operation runs, and \<open>now\<close> is the instant that the operation reads.
\<close>

definition Repo_DuplicateTemplate ::
  "(nat \<Rightarrow> string) \<Rightarrow> time \<Rightarrow> inMemoryRepository \<Rightarrow> string \<Rightarrow> string \<Rightarrow> DuplicateOptions
     \<Rightarrow> error + (Template \<times> inMemoryRepository)" where
  "Repo_DuplicateTemplate newID now r tenantID templateID opt =
     (case templates r templateID of
        None \<Rightarrow> Inl ErrNotFound
      | Some tpl \<Rightarrow>
          if TenantID tpl \<noteq> tenantID then Inl ErrNotFound
          else
            let clone = tpl\<lparr>TemplateID := newID 0, CreatedAt := now, UpdatedAt := now,
                            CreatedBy := DCreatedBy opt, UpdatedBy := DUpdatedBy opt,
                            DeletedAt := None, DocumentsCount := 0, LastUsedAt := None,
                            Version := 1,
                            Name := (if NameOverride opt \<noteq> [] then NameOverride opt
                                     else Name tpl @ '' Copy''),
                            Description := (if DescriptionOverride opt \<noteq> []
                                            then DescriptionOverride opt else Description tpl)\<rparr>
            in (case Template_Validate TrimSpace clone of
                  Some err \<Rightarrow> Inl err
                | None \<Rightarrow>
                    (case templates r (TemplateID clone) of
                       Some existing \<Rightarrow> Inl ErrConflict
                     | None \<Rightarrow>
                         let version = \<lparr>VersionID = newID 1,
                                        VTemplateID = TemplateID clone,
                                        VersionNumber = Version clone,
                                        ChangeSummary = ''duplicated from '' @ TemplateID tpl,
                                        VJSONSchemaURL = JSONSchemaURL clone,
                                        VCreatedBy = DUpdatedBy opt,
                                        VCreatedAt = now,
                                        IsCurrent = True\<rparr>
                         in Inr (clone,
                                 r\<lparr>templates := (templates r)(TemplateID clone \<mapsto> clone),
                                   versions := (versions r)(TemplateID clone \<mapsto>
                                      versionsOf r (TemplateID clone) @ [version])\<rparr>))))"

subsection \<open>Versions\<close>

definition Repo_ListVersions ::
  "inMemoryRepository \<Rightarrow> string \<Rightarrow> string \<Rightarrow> error + TemplateVersion list" where
  "Repo_ListVersions r tenantID templateID =
     (case templates r templateID of
        None \<Rightarrow> Inl ErrNotFound
      | Some tpl \<Rightarrow>
          if TenantID tpl \<noteq> tenantID then Inl ErrNotFound else Inr (versionsOf r templateID))"

definition Repo_CreateVersion ::
  "inMemoryRepository \<Rightarrow> string \<Rightarrow> TemplateVersion
     \<Rightarrow> error + (TemplateVersion \<times> inMemoryRepository)" where
  "Repo_CreateVersion r tenantID version =
     (case templates r (VTemplateID version) of
        None \<Rightarrow> Inl ErrNotFound
      | Some tpl \<Rightarrow>
          if TenantID tpl \<noteq> tenantID then Inl ErrNotFound
          else (case TemplateVersion_Validate version of
                  Some err \<Rightarrow> Inl err
                | None \<Rightarrow>
                    Inr (version,
                         r\<lparr>versions := (versions r)(VTemplateID version \<mapsto>
                              map (\<lambda>e. e\<lparr>IsCurrent := False\<rparr>) (versionsOf r (VTemplateID version))
                              @ [version])\<rparr>)))"

definition Repo_RestoreVersion ::
  "time \<Rightarrow> inMemoryRepository \<Rightarrow> string \<Rightarrow> string \<Rightarrow> go_int
     \<Rightarrow> error + (TemplateVersion \<times> inMemoryRepository)" where
  "Repo_RestoreVersion now r tenantID templateID versionNumber =
     (case templates r templateID of
        None \<Rightarrow> Inl ErrNotFound
      | Some tpl \<Rightarrow>
          if TenantID tpl \<noteq> tenantID then Inl ErrNotFound
          else (case find (\<lambda>v. VersionNumber v = versionNumber) (versionsOf r templateID) of
                  None \<Rightarrow> Inl ErrNotFound
                | Some restored \<Rightarrow>
                    let tpl1 = tpl\<lparr>JSONSchemaURL := VJSONSchemaURL restored,
                                   Version := Version tpl + 1,
                                   UpdatedAt := now,
                                   UpdatedBy := VCreatedBy restored\<rparr>;
                        clone = restored\<lparr>IsCurrent := True,
                                         VersionNumber := Version tpl1,
                                         VCreatedAt := UpdatedAt tpl1\<rparr>
                    in Inr (clone,
                            r\<lparr>templates := (templates r)(templateID \<mapsto> tpl1),
                              versions := (versions r)(templateID \<mapsto>
                                 versionsOf r templateID @ [clone])\<rparr>)))"

text \<open>The loop of \<open>CompareVersions\<close>: the \<open>switch\<close> tries \<open>left\<close> first, and a later
  entry with the same number replaces an earlier one.\<close>

definition compareStep ::
  "go_int \<Rightarrow> go_int \<Rightarrow> TemplateVersion option \<times> TemplateVersion option \<Rightarrow> TemplateVersion
     \<Rightarrow> TemplateVersion option \<times> TemplateVersion option" where
  "compareStep left right acc version =
     (if VersionNumber version = left then (Some version, snd acc)
      else if VersionNumber version = right then (fst acc, Some version)
      else acc)"

definition Repo_CompareVersions ::
  "inMemoryRepository \<Rightarrow> string \<Rightarrow> string \<Rightarrow> go_int \<Rightarrow> go_int \<Rightarrow> error + VersionComparison" where
  "Repo_CompareVersions r tenantID templateID left right =
     (case templates r templateID of
        None \<Rightarrow> Inl ErrNotFound
      | Some tpl \<Rightarrow>
          if TenantID tpl \<noteq> tenantID then Inl ErrNotFound
          else (case foldl (compareStep left right) (None, None) (versionsOf r templateID) of
                  (Some leftVersion, Some rightVersion) \<Rightarrow>
                    Inr \<lparr>CTemplateID = TemplateID tpl, Left = leftVersion, Right = rightVersion,
                         Summary = ''left schema: '' @ VJSONSchemaURL leftVersion
                                   @ '', right schema: '' @ VJSONSchemaURL rightVersion\<rparr>
                | other \<Rightarrow> Inl ErrNotFound))"

section \<open>The template service (service.go)\<close>

text \<open>
  The service holds no lock: each call to the repository is a step of its own, and a
  method that fails after its first write returns the state that write left. So a
  method of the service returns its result together with the state.
\<close>

definition Service_CreateTemplate ::
  "(nat \<Rightarrow> string) \<Rightarrow> time \<Rightarrow> inMemoryRepository \<Rightarrow> Template
     \<Rightarrow> (error + Template) \<times> inMemoryRepository" where
  "Service_CreateTemplate newID now r tpl0 =
     (let tpl = tpl0\<lparr>TemplateID := newID 0, CreatedAt := now, UpdatedAt := now, Version := 1\<rparr>
      in (case Template_Validate TrimSpace tpl of
            Some err \<Rightarrow> (Inl (Errorf ''validate template'' err), r)
          | None \<Rightarrow>
              (case Repo_CreateTemplate r tpl of
                 Inl err \<Rightarrow> (Inl err, r)
               | Inr (created, r1) \<Rightarrow>
                   let version = \<lparr>VersionID = newID 1,
                                  VTemplateID = TemplateID tpl,
                                  VersionNumber = Version tpl,
                                  ChangeSummary = ''initial version'',
                                  VJSONSchemaURL = JSONSchemaURL tpl,
                                  VCreatedBy = CreatedBy tpl,
                                  VCreatedAt = now,
                                  IsCurrent = True\<rparr>
                   in (case Repo_CreateVersion r1 (TenantID tpl) version of
                         Inl err \<Rightarrow> (Inl err, r1)
                       | Inr (v, r2) \<Rightarrow> (Inr created, r2)))))"

text \<open>
  \<open>mutate\<close> is the caller's closure: it works on the copy that \<open>GetTemplate\<close> returned,
  and the copy is dropped when the closure returns an error.
\<close>

definition Service_UpdateTemplate ::
  "(nat \<Rightarrow> string) \<Rightarrow> time \<Rightarrow> inMemoryRepository \<Rightarrow> string \<Rightarrow> string
     \<Rightarrow> (Template \<Rightarrow> error + Template) \<Rightarrow> string \<Rightarrow> string
     \<Rightarrow> (error + Template) \<times> inMemoryRepository" where
  "Service_UpdateTemplate newID now r tenantID templateID mutate updatedBy changeSummary =
     (case Repo_GetTemplate r tenantID templateID of
        Inl err \<Rightarrow> (Inl err, r)
      | Inr tpl0 \<Rightarrow>
          if DeletedAt tpl0 \<noteq> None then (Inl (Errorf ''template is deleted'' ErrInvalidInput), r)
          else (case mutate tpl0 of
                  Inl err \<Rightarrow> (Inl err, r)
                | Inr tpl1 \<Rightarrow>
                    let tpl = tpl1\<lparr>Version := Version tpl1 + 1, UpdatedBy := updatedBy,
                                   UpdatedAt := now\<rparr>
                    in (case Template_Validate TrimSpace tpl of
                          Some err \<Rightarrow> (Inl err, r)
                        | None \<Rightarrow>
                            (case Repo_UpdateTemplate r tpl of
                               Inl err \<Rightarrow> (Inl err, r)
                             | Inr (updated, r1) \<Rightarrow>
                                 let version = \<lparr>VersionID = newID 0,
                                                VTemplateID = TemplateID tpl,
                                                VersionNumber = Version tpl,
                                                ChangeSummary = changeSummary,
                                                VJSONSchemaURL = JSONSchemaURL tpl,
                                                VCreatedBy = updatedBy,
                                                VCreatedAt = UpdatedAt tpl,
                                                IsCurrent = True\<rparr>
                                 in (case Repo_CreateVersion r1 tenantID version of
                                       Inl err \<Rightarrow> (Inl err, r1)
                                     | Inr (v, r2) \<Rightarrow> (Inr updated, r2))))))"

text \<open>The loop of \<open>DuplicateTemplate\<close> over the versions of the source; \<open>i\<close> counts the
  calls of \<open>newID\<close> made so far.\<close>

fun copyVersions ::
  "(nat \<Rightarrow> string) \<Rightarrow> nat \<Rightarrow> inMemoryRepository \<Rightarrow> string \<Rightarrow> Template \<Rightarrow> TemplateVersion list
     \<Rightarrow> error option \<times> inMemoryRepository" where
  "copyVersions newID i r tenantID tpl [] = (None, r)"
| "copyVersions newID i r tenantID tpl (v0 # vs) =
     (let v1 = v0\<lparr>VTemplateID := TemplateID tpl, VersionID := newID i\<rparr>;
          v = (if IsCurrent v1 then v1\<lparr>VersionNumber := Version tpl\<rparr> else v1)
      in (case Repo_CreateVersion r tenantID v of
            Inl err \<Rightarrow> (Some err, r)
          | Inr (created, r1) \<Rightarrow> copyVersions newID (Suc i) r1 tenantID tpl vs))"

definition Service_DuplicateTemplate ::
  "(nat \<Rightarrow> string) \<Rightarrow> time \<Rightarrow> inMemoryRepository \<Rightarrow> string \<Rightarrow> string \<Rightarrow> DuplicateOptions
     \<Rightarrow> (error + Template) \<times> inMemoryRepository" where
  "Service_DuplicateTemplate newID now r tenantID templateID opt =
     (case Repo_DuplicateTemplate newID now r tenantID templateID opt of
        Inl err \<Rightarrow> (Inl err, r)
      | Inr (tpl, r1) \<Rightarrow>
          if CopyVersions opt
          then (case Repo_ListVersions r1 tenantID templateID of
                  Inl err \<Rightarrow> (Inl err, r1)
                | Inr vs \<Rightarrow>
                    (case copyVersions newID 2 r1 tenantID tpl vs of
                       (Some err, r2) \<Rightarrow> (Inl err, r2)
                     | (None, r2) \<Rightarrow> (Inr tpl, r2)))
          else (Inr tpl, r1))"

text \<open>The other methods of the service hand the call to the repository.\<close>

definition Service_RestoreTemplate ::
  "inMemoryRepository \<Rightarrow> string \<Rightarrow> string \<Rightarrow> error + (Template \<times> inMemoryRepository)" where
  "Service_RestoreTemplate r tenantID templateID = Repo_RestoreTemplate r tenantID templateID"

definition Service_DeleteTemplate ::
  "time \<Rightarrow> inMemoryRepository \<Rightarrow> string \<Rightarrow> string \<Rightarrow> error + inMemoryRepository" where
  "Service_DeleteTemplate now r tenantID templateID = Repo_SoftDeleteTemplate now r tenantID templateID"

definition Service_GetTemplate :: "inMemoryRepository \<Rightarrow> string \<Rightarrow> string \<Rightarrow> error + Template" where
  "Service_GetTemplate r tenantID templateID = Repo_GetTemplate r tenantID templateID"

definition Service_ListVersions ::
  "inMemoryRepository \<Rightarrow> string \<Rightarrow> string \<Rightarrow> error + TemplateVersion list" where
  "Service_ListVersions r tenantID templateID = Repo_ListVersions r tenantID templateID"

definition Service_RestoreVersion ::
  "time \<Rightarrow> inMemoryRepository \<Rightarrow> string \<Rightarrow> string \<Rightarrow> go_int
     \<Rightarrow> error + (TemplateVersion \<times> inMemoryRepository)" where
  "Service_RestoreVersion now r tenantID templateID versionNumber =
     Repo_RestoreVersion now r tenantID templateID versionNumber"

definition Service_CompareVersions ::
  "inMemoryRepository \<Rightarrow> string \<Rightarrow> string \<Rightarrow> go_int \<Rightarrow> go_int \<Rightarrow> error + VersionComparison" where
  "Service_CompareVersions r tenantID templateID left right =
     Repo_CompareVersions r tenantID templateID left right"

section \<open>Sequences of operations\<close>

text \<open>
  What the caller's closure may do is stated as two properties of it: it leaves the
  version counter alone, and it leaves the identifier alone.
\<close>

definition keeps_version :: "(Template \<Rightarrow> error + Template) \<Rightarrow> bool" where
  "keeps_version mutate = (\<forall>t t'. mutate t = Inr t' \<longrightarrow> Version t' = Version t)"

definition keeps_identifier :: "(Template \<Rightarrow> error + Template) \<Rightarrow> bool" where
  "keeps_identifier mutate = (\<forall>t t'. mutate t = Inr t' \<longrightarrow> TemplateID t' = TemplateID t)"

text \<open>
  A call of \<open>UpdateTemplate\<close> for a fixed tenant and template: the identifiers and the
  instant it draws, the closure, the acting user and the change summary.
  \<open>run_updates\<close> makes the calls in turn; its result is \<open>None\<close> when one of them is not
  accepted (returns an error).
\<close>

type_synonym update_call =
  "(nat \<Rightarrow> string) \<times> time \<times> (Template \<Rightarrow> error + Template) \<times> string \<times> string"

fun run_updates ::
  "inMemoryRepository \<Rightarrow> string \<Rightarrow> string \<Rightarrow> update_call list \<Rightarrow> inMemoryRepository option" where
  "run_updates r tenantID templateID [] = Some r"
| "run_updates r tenantID templateID ((newID, now, mutate, updatedBy, changeSummary) # calls) =
     (case Service_UpdateTemplate newID now r tenantID templateID mutate updatedBy changeSummary of
        (Inl err, r1) \<Rightarrow> None
      | (Inr updated, r1) \<Rightarrow> run_updates r1 tenantID templateID calls)"

text \<open>The largest \<open>int\<close>; \<open>below_max r k\<close>: the counter of the template under \<open>k\<close>, if
  there is one, has not reached it.\<close>

definition maxInt :: go_int where
  "maxInt = 0x7FFFFFFFFFFFFFFF"

definition below_max :: "inMemoryRepository \<Rightarrow> string \<Rightarrow> bool" where
  "below_max r k = (case templates r k of None \<Rightarrow> True | Some t \<Rightarrow> Version t \<noteq> maxInt)"

text \<open>
  \<open>numbered t vs\<close>: the version numbers of the history \<open>vs\<close> are 1, 2, ... up to the
  version counter of \<open>t\<close>, in this order. \<open>consistent clones r\<close> is the invariant of the
  reachable states: a template is stored under its own, non-empty identifier, its counter
  is at least 1, its history is numbered unless it is one of \<open>clones\<close>, and there is no
  history without a template.
\<close>

definition numbered :: "Template \<Rightarrow> TemplateVersion list \<Rightarrow> bool" where
  "numbered t vs =
     (1 \<le> sint (Version t) \<and> map (\<lambda>v. sint (VersionNumber v)) vs = [1..sint (Version t)])"

definition consistent :: "string set \<Rightarrow> inMemoryRepository \<Rightarrow> bool" where
  "consistent clones r =
     (\<forall>k. case templates r k of
             None \<Rightarrow> versionsOf r k = []
           | Some t \<Rightarrow> k \<noteq> [] \<and> TemplateID t = k \<and> 1 \<le> sint (Version t)
                       \<and> (k \<notin> clones \<longrightarrow> numbered t (versionsOf r k)))"

text \<open>
  \<open>reachable r clones\<close>: the service reaches the state \<open>r\<close> from the empty repository by
  calls of \<open>Create\<close>, \<open>Update\<close>, \<open>Delete\<close>, \<open>Restore\<close>, \<open>Duplicate\<close> (with or without
  \<open>copy_versions\<close>) and \<open>RestoreVersion\<close>, whatever each call returns, and \<open>clones\<close> are
  the identifiers of the templates that a \<open>Duplicate\<close> with \<open>copy_versions\<close> has
  inserted on the way. The calls run one after another: a call is a step, so no call of
  the repository from another call of the service comes between the two or more calls
  of the repository that one call of the service makes. The generator returns non-empty
  identifiers for templates, the closures of \<open>Update\<close> leave the identifier and the
  version counter alone, and the counter of the template that is updated or restored is
  below the largest \<open>int\<close>.
\<close>

inductive reachable :: "inMemoryRepository \<Rightarrow> string set \<Rightarrow> bool" where
  reach_new: "reachable NewInMemoryRepository {}"
| reach_create:
    "reachable r clones \<Longrightarrow> newID 0 \<noteq> []
     \<Longrightarrow> Service_CreateTemplate newID now r tpl = (res, r')
     \<Longrightarrow> reachable r' clones"
| reach_update:
    "reachable r clones \<Longrightarrow> keeps_version mutate \<Longrightarrow> keeps_identifier mutate
     \<Longrightarrow> below_max r templateID
     \<Longrightarrow> Service_UpdateTemplate newID now r tenantID templateID mutate updatedBy changeSummary
           = (res, r')
     \<Longrightarrow> reachable r' clones"
| reach_delete:
    "reachable r clones \<Longrightarrow> Service_DeleteTemplate now r tenantID templateID = Inr r'
     \<Longrightarrow> reachable r' clones"
| reach_restore:
    "reachable r clones \<Longrightarrow> Service_RestoreTemplate r tenantID templateID = Inr (restored, r')
     \<Longrightarrow> reachable r' clones"
| reach_duplicate:
    "reachable r clones \<Longrightarrow> newID 0 \<noteq> []
     \<Longrightarrow> Service_DuplicateTemplate newID now r tenantID templateID opt = (res, r')
     \<Longrightarrow> reachable r' (if CopyVersions opt \<and> templates r (newID 0) = None
                              \<and> templates r' (newID 0) \<noteq> None
                           then insert (newID 0) clones else clones)"
| reach_restore_version:
    "reachable r clones \<Longrightarrow> below_max r templateID
     \<Longrightarrow> Service_RestoreVersion now r tenantID templateID versionNumber = Inr (v, r')
     \<Longrightarrow> reachable r' clones"

section \<open>Example states\<close>

text \<open>
  The scenario of the specification: tenant \<open>t1\<close> creates the template ``Warranty EU''.
  \<open>fixedIDs ids\<close> is a generator that returns the identifiers of \<open>ids\<close> in turn.
\<close>

definition fixedIDs :: "string list \<Rightarrow> nat \<Rightarrow> string" where
  "fixedIDs ids i = (if i < length ids then ids ! i else [])"

definition exTemplate :: Template where
  "exTemplate = \<lparr>TemplateID = [], TenantID = ''t1'', Name = ''Warranty EU'', Description = [],
     DocumentType = ''warranty'', PageSize = ''A4'', Orientation = ''portrait'',
     JSONSchemaURL = ''s3://schemas/v1.json'', ThumbnailURL = [], Version = 0,
     CreatedBy = ''u1'', UpdatedBy = ''u1'', CreatedAt = 0, UpdatedAt = 0, DeletedAt = None,
     DocumentsCount = 0, LastUsedAt = None\<rparr>"

definition exRepo1 :: inMemoryRepository where
  "exRepo1 = snd (Service_CreateTemplate (fixedIDs [''tpl-1'', ''ver-1'']) 10
                    NewInMemoryRepository exTemplate)"

definition exVersion1 :: TemplateVersion where
  "exVersion1 = \<lparr>VersionID = ''ver-1'', VTemplateID = ''tpl-1'', VersionNumber = 1,
     ChangeSummary = ''initial version'', VJSONSchemaURL = ''s3://schemas/v1.json'',
     VCreatedBy = ''u1'', VCreatedAt = 10, IsCurrent = True\<rparr>"

definition exDeleted :: inMemoryRepository where
  "exDeleted = (case Service_DeleteTemplate 20 exRepo1 ''t1'' ''tpl-1'' of
                  Inl e \<Rightarrow> exRepo1 | Inr r \<Rightarrow> r)"

definition exListOptions :: ListOptions where
  "exListOptions = \<lparr>LTenantID = ''t1'', Search = [], LDocumentType = [], IncludeDeleted = False,
     Limit = 0, Offset = 0\<rparr>"

definition exRename :: "Template \<Rightarrow> error + Template" where
  "exRename t = Inr (t\<lparr>Name := ''Warranty EU v2''\<rparr>)"

definition exRetarget :: "Template \<Rightarrow> error + Template" where
  "exRetarget t = Inr (t\<lparr>TemplateID := ''tpl-1''\<rparr>)"

definition exRepo2 :: inMemoryRepository where
  "exRepo2 = snd (Service_UpdateTemplate (fixedIDs [''ver-2'']) 20 exRepo1 ''t1'' ''tpl-1''
                    exRename ''u1'' ''rename'')"

definition exRepoAB :: inMemoryRepository where
  "exRepoAB = snd (Service_CreateTemplate (fixedIDs [''tpl-2'', ''ver-2'']) 20 exRepo1 exTemplate)"

definition exRepo3 :: inMemoryRepository where
  "exRepo3 = (case Service_RestoreVersion 30 exRepo2 ''t1'' ''tpl-1'' 1 of
                Inl e \<Rightarrow> exRepo2 | Inr (v, r) \<Rightarrow> r)"

definition exRepoT2 :: inMemoryRepository where
  "exRepoT2 = snd (Service_CreateTemplate (fixedIDs [''tpl-2'', ''ver-2'']) 20 exRepo1
                     (exTemplate\<lparr>TenantID := ''t2'', Name := ''Label US''\<rparr>))"

definition exHijack :: "Template \<Rightarrow> error + Template" where
  "exHijack t = Inr (t\<lparr>TemplateID := ''tpl-1'', TenantID := ''t1''\<rparr>)"

definition exCopyOptions :: DuplicateOptions where
  "exCopyOptions = \<lparr>DCreatedBy = ''u1'', DUpdatedBy = ''u1'', CopyVersions = True,
     NameOverride = [], DescriptionOverride = []\<rparr>"

text \<open>The state after a \<open>Duplicate\<close> of the template with \<open>copy_versions\<close>.\<close>

definition exRepoCopy :: inMemoryRepository where
  "exRepoCopy = snd (Service_DuplicateTemplate (fixedIDs [''tpl-2'', ''ver-2'', ''ver-3'']) 20
                       exRepo1 ''t1'' ''tpl-1'' exCopyOptions)"

section \<open>Basic facts\<close>

lemma versionsOf_versions_update:
  "versionsOf (r\<lparr>versions := m(k \<mapsto> vs)\<rparr>) k'
     = (if k' = k then vs else versionsOf (r\<lparr>versions := m\<rparr>) k')"
  by (simp add: versionsOf_def)

lemma versionsOf_versions_same: "versionsOf (r\<lparr>versions := versions r2\<rparr>) k = versionsOf r2 k"
  by (simp add: versionsOf_def)

lemma versionsOf_templates_update: "versionsOf (r\<lparr>templates := m\<rparr>) k = versionsOf r k"
  by (simp add: versionsOf_def)

lemmas versionsOf_simps =
  versionsOf_versions_update versionsOf_versions_same versionsOf_templates_update

lemma versionsOf_new: "versionsOf NewInMemoryRepository k = []"
  by (simp add: versionsOf_def NewInMemoryRepository_def)

lemma trimPrefix_length: "length (trimPrefix qs s) \<le> length s"
proof (induction qs s rule: trimPrefix.induct)
  case (1 qs s)
  show ?case
  proof (cases "find (\<lambda>q. q \<noteq> [] \<and> take (length q) s = q) qs")
    case None
    then show ?thesis by (simp add: trimPrefix.simps [of qs s])
  next
    case (Some q)
    with "1" have "length (trimPrefix qs (drop (length q) s)) \<le> length (drop (length q) s)"
      by simp
    with Some show ?thesis by (simp add: trimPrefix.simps [of qs s])
  qed
qed

lemma TrimSpace_length: "length (TrimSpace s) \<le> length s"
proof -
  have "length (TrimSpace s) \<le> length (rev (trimPrefix spaceRunes s))"
    unfolding TrimSpace_def
    using trimPrefix_length [of "map rev spaceRunes" "rev (trimPrefix spaceRunes s)"] by simp
  also have "\<dots> \<le> length s" using trimPrefix_length [of spaceRunes s] by simp
  finally show ?thesis .
qed

text \<open>\<open>TrimSpace\<close> and \<open>ToLowerASCII\<close> on the text of the examples.\<close>

lemma TrimSpace_examples:
  "TrimSpace [] = []"
  "TrimSpace ''Warranty EU'' = ''Warranty EU''"
  "TrimSpace ''Warranty EU v2'' = ''Warranty EU v2''"
  "TrimSpace ''Warranty EU Copy'' = ''Warranty EU Copy''"
  "TrimSpace ''Label US'' = ''Label US''"
  by code_simp+

lemma ToLowerASCII_Nil: "ToLowerASCII [] = []"
  by (simp add: ToLowerASCII_def)

lemmas ex_defs = fixedIDs_def exTemplate_def exRepo1_def NewInMemoryRepository_def
  Service_CreateTemplate_def Template_Validate_def TemplateVersion_Validate_def
  Repo_CreateTemplate_def Repo_CreateVersion_def versionsOf_def TrimSpace_examples
  DocumentTypeWarranty_def PageSizeA4_def OrientationPortrait_def word_sle_eq

lemma ex1_templates:
  "templates exRepo1 ''tpl-1''
     = Some (exTemplate\<lparr>TemplateID := ''tpl-1'', CreatedAt := 10, UpdatedAt := 10, Version := 1\<rparr>)"
  by (simp add: ex_defs Let_def)

lemma ex1_versions: "versionsOf exRepo1 ''tpl-1'' = [exVersion1]"
  by (simp add: ex_defs exVersion1_def Let_def)

lemma exRepo1_eq:
  "exRepo1 = \<lparr>templates = [''tpl-1'' \<mapsto> exTemplate\<lparr>TemplateID := ''tpl-1'', CreatedAt := 10,
                                             UpdatedAt := 10, Version := 1\<rparr>],
              versions = [''tpl-1'' \<mapsto> [exVersion1]]\<rparr>"
  by (simp add: ex_defs exVersion1_def Let_def)

lemma ex1_create:
  "Service_CreateTemplate (fixedIDs [''tpl-1'', ''ver-1'']) 10 NewInMemoryRepository exTemplate
     = (Inr (exTemplate\<lparr>TemplateID := ''tpl-1'', CreatedAt := 10, UpdatedAt := 10, Version := 1\<rparr>),
        exRepo1)"
  unfolding exRepo1_def
  by (simp add: ex_defs Let_def)

lemmas run_defs = Service_UpdateTemplate_def Service_CreateTemplate_def Repo_GetTemplate_def
  Repo_UpdateTemplate_def Repo_CreateTemplate_def Repo_CreateVersion_def
  Template_Validate_def TemplateVersion_Validate_def
  TrimSpace_examples DocumentTypeWarranty_def PageSizeA4_def OrientationPortrait_def
  word_sle_eq fixedIDs_def Let_def versionsOf_def exTemplate_def exVersion1_def

lemma exRepoAB_eq:
  "exRepoAB = \<lparr>templates = [''tpl-1'' \<mapsto> exTemplate\<lparr>TemplateID := ''tpl-1'', CreatedAt := 10,
                                             UpdatedAt := 10, Version := 1\<rparr>,
                            ''tpl-2'' \<mapsto> exTemplate\<lparr>TemplateID := ''tpl-2'', CreatedAt := 20,
                                             UpdatedAt := 20, Version := 1\<rparr>],
              versions = [''tpl-1'' \<mapsto> [exVersion1],
                          ''tpl-2'' \<mapsto> [exVersion1\<lparr>VersionID := ''ver-2'', VTemplateID := ''tpl-2'',
                                           VCreatedAt := 20\<rparr>]]\<rparr>"
  unfolding exRepoAB_def
  by (simp add: exRepo1_eq run_defs)

section \<open>Validation of the name\<close>

text \<open>
  C8, as the code has it, for whatever \<open>strings.TrimSpace\<close> computes: when the other
  fields pass, \<open>Validate\<close> accepts a template if and only if its name has at least 3 bytes
  after trimming and at most 100 bytes before trimming. As trimming does not lengthen the
  name, an accepted name has a trimmed length in 3..100; a name with a trimmed length in
  3..100 is rejected when the white space around it takes it over 100 bytes.
\<close>

theorem validate_name_bounds:
  assumes "other_fields_valid t"
  shows "(Template_Validate trim t = None)
           = (3 \<le> length (trim (Name t)) \<and> length (Name t) \<le> 100)
    \<and> (length (trim (Name t)) \<le> length (Name t) \<and> Template_Validate trim t = None
         \<longrightarrow> 3 \<le> length (trim (Name t)) \<and> length (trim (Name t)) \<le> 100)"
proof -
  have eq: "(Template_Validate trim t = None)
              = (3 \<le> length (trim (Name t)) \<and> length (Name t) \<le> 100)"
    using assms by (auto simp: other_fields_valid_def Template_Validate_def)
  then show ?thesis by auto
qed

theorem validate_name_bounds_witness:
  "other_fields_valid exTemplate \<and> Template_Validate TrimSpace exTemplate = None
   \<and> length (TrimSpace (Name exTemplate)) = 11
   \<and> length (TrimSpace (Name exTemplate)) \<le> length (Name exTemplate)"
  using validate_name_bounds [of exTemplate TrimSpace] TrimSpace_length [of "Name exTemplate"]
  by (simp add: other_fields_valid_def exTemplate_def TrimSpace_examples
      DocumentTypeWarranty_def PageSizeA4_def OrientationPortrait_def)

text \<open>The claim C8 as stated fails on the name \<open>abc\<close> followed by 98 spaces: its trimmed
  length is 3, the other fields pass, and \<open>Validate\<close> rejects it.\<close>

theorem validate_name_counterexample:
  "other_fields_valid (exTemplate\<lparr>Name := ''abc'' @ replicate 98 (CHR 0x20)\<rparr>)
   \<and> length (TrimSpace (Name (exTemplate\<lparr>Name := ''abc'' @ replicate 98 (CHR 0x20)\<rparr>))) = 3
   \<and> Template_Validate TrimSpace (exTemplate\<lparr>Name := ''abc'' @ replicate 98 (CHR 0x20)\<rparr>)
       = Some (ErrorNew ''name must be between 3 and 100 characters'')"
  by code_simp

text \<open>On a name that ends with a no-break space (U+00A0) the trimming is that of Go:
  \<open>ab\<close> followed by U+00A0 has 4 bytes, 2 after trimming, and is rejected.\<close>

lemma validate_name_no_break_space:
  "TrimSpace [CHR ''a'', CHR ''b'', CHR 0xC2, CHR 0xA0] = ''ab''
   \<and> Template_Validate TrimSpace (exTemplate\<lparr>Name := [CHR ''a'', CHR ''b'', CHR 0xC2, CHR 0xA0]\<rparr>)
       = Some (ErrorNew ''name must be between 3 and 100 characters'')"
  by code_simp

section \<open>Tenant isolation\<close>

text \<open>
  C6: when the template stored under \<open>templateID\<close> belongs to another tenant, each
  operation that takes a tenant (for \<open>UpdateTemplate\<close> of the repository the tenant of
  the record it is given, for \<open>CreateVersion\<close> the template the version names) returns
  \<open>ErrNotFound\<close> and nothing else; it returns no template and the state is the one
  before the call.
\<close>

theorem cross_tenant_not_found:
  assumes "templates r templateID = Some t" and "TenantID t \<noteq> tenantID"
  shows "Repo_GetTemplate r tenantID templateID = Inl ErrNotFound
    \<and> Repo_UpdateTemplate r (tpl\<lparr>TemplateID := templateID, TenantID := tenantID\<rparr>) = Inl ErrNotFound
    \<and> Repo_SoftDeleteTemplate now r tenantID templateID = Inl ErrNotFound
    \<and> Repo_RestoreTemplate r tenantID templateID = Inl ErrNotFound
    \<and> Repo_DuplicateTemplate newID now r tenantID templateID dopt = Inl ErrNotFound
    \<and> Repo_ListVersions r tenantID templateID = Inl ErrNotFound
    \<and> Repo_CreateVersion r tenantID (version\<lparr>VTemplateID := templateID\<rparr>) = Inl ErrNotFound
    \<and> Repo_RestoreVersion now r tenantID templateID n = Inl ErrNotFound
    \<and> Repo_CompareVersions r tenantID templateID left right = Inl ErrNotFound
    \<and> Service_UpdateTemplate newID now r tenantID templateID mutate updatedBy changeSummary
        = (Inl ErrNotFound, r)
    \<and> Service_DuplicateTemplate newID now r tenantID templateID dopt = (Inl ErrNotFound, r)"
  using assms
  by (simp add: Repo_GetTemplate_def Repo_UpdateTemplate_def Repo_SoftDeleteTemplate_def
      Repo_RestoreTemplate_def Repo_DuplicateTemplate_def Repo_ListVersions_def
      Repo_CreateVersion_def Repo_RestoreVersion_def Repo_CompareVersions_def
      Service_UpdateTemplate_def Service_DuplicateTemplate_def)

theorem cross_tenant_not_found_witness:
  "templates exRepo1 ''tpl-1'' \<noteq> None
   \<and> Repo_GetTemplate exRepo1 ''t2'' ''tpl-1'' = Inl ErrNotFound
   \<and> Repo_RestoreVersion 20 exRepo1 ''t2'' ''tpl-1'' 1 = Inl ErrNotFound
   \<and> Service_UpdateTemplate (fixedIDs [''ver-2'']) 20 exRepo1 ''t2'' ''tpl-1'' Inr ''u2'' ''x''
        = (Inl ErrNotFound, exRepo1)"
  using cross_tenant_not_found [OF ex1_templates, of "''t2''" _ 20 _ _ _ 1 _ _ Inr "''u2''" "''x''"]
  by (simp add: exTemplate_def ex1_templates)

section \<open>Appending a version\<close>

text \<open>
  C2, as the code has it: a successful \<open>CreateVersion\<close> clears \<open>is_current\<close> on every
  entry the template had and appends the entry it was given, with the flag it was given.
  When that flag is set the history ends with exactly one current entry, the new one;
  when it is not set the history ends with no current entry. Nothing else changes.
\<close>

theorem create_version_effect:
  assumes "Repo_CreateVersion r tenantID version = Inr (created, r')"
  shows "created = version
    \<and> templates r' = templates r
    \<and> versionsOf r' (VTemplateID version)
        = map (\<lambda>e. e\<lparr>IsCurrent := False\<rparr>) (versionsOf r (VTemplateID version)) @ [version]
    \<and> filter IsCurrent (versionsOf r' (VTemplateID version))
        = (if IsCurrent version then [version] else [])
    \<and> (\<forall>k. k \<noteq> VTemplateID version \<longrightarrow> versionsOf r' k = versionsOf r k)"
  using assms
  by (auto simp: Repo_CreateVersion_def versionsOf_simps filter_empty_conv
           split: option.splits if_splits)

theorem create_version_effect_witness:
  "Repo_CreateVersion exRepo1 ''t1'' (exVersion1\<lparr>VersionID := ''ver-2'', VersionNumber := 2\<rparr>)
     = Inr (exVersion1\<lparr>VersionID := ''ver-2'', VersionNumber := 2\<rparr>,
            exRepo1\<lparr>versions := (versions exRepo1)(''tpl-1'' \<mapsto>
               [exVersion1\<lparr>IsCurrent := False\<rparr>, exVersion1\<lparr>VersionID := ''ver-2'', VersionNumber := 2\<rparr>])\<rparr>)
   \<and> filter IsCurrent (versionsOf (exRepo1\<lparr>versions := (versions exRepo1)(''tpl-1'' \<mapsto>
               [exVersion1\<lparr>IsCurrent := False\<rparr>, exVersion1\<lparr>VersionID := ''ver-2'', VersionNumber := 2\<rparr>])\<rparr>) ''tpl-1'')
       = [exVersion1\<lparr>VersionID := ''ver-2'', VersionNumber := 2\<rparr>]"
proof -
  have run: "Repo_CreateVersion exRepo1 ''t1'' (exVersion1\<lparr>VersionID := ''ver-2'', VersionNumber := 2\<rparr>)
     = Inr (exVersion1\<lparr>VersionID := ''ver-2'', VersionNumber := 2\<rparr>,
            exRepo1\<lparr>versions := (versions exRepo1)(''tpl-1'' \<mapsto>
               [exVersion1\<lparr>IsCurrent := False\<rparr>, exVersion1\<lparr>VersionID := ''ver-2'', VersionNumber := 2\<rparr>])\<rparr>)"
    by (simp add: Repo_CreateVersion_def ex1_templates ex1_versions exTemplate_def exVersion1_def
        TemplateVersion_Validate_def word_sle_eq)
  show ?thesis using create_version_effect [OF run] run
    by (simp add: exVersion1_def)
qed

text \<open>The claim C2 as stated fails when the caller passes an entry that is not flagged
  current (as the copy loop of \<open>DuplicateTemplate\<close> does for the older entries of the
  source): the append succeeds and leaves two entries, none of them current.\<close>

theorem create_version_counterexample:
  "(case Repo_CreateVersion exRepo1 ''t1'' (exVersion1\<lparr>VersionID := ''ver-2'', VersionNumber := 2, IsCurrent := False\<rparr>) of
      Inl e \<Rightarrow> False
    | Inr (created, r) \<Rightarrow> \<not> IsCurrent created \<and> length (versionsOf r ''tpl-1'') = 2
         \<and> filter IsCurrent (versionsOf r ''tpl-1'') = [])"
  by (simp add: Repo_CreateVersion_def ex1_templates ex1_versions exTemplate_def exVersion1_def
        TemplateVersion_Validate_def word_sle_eq versionsOf_simps)

section \<open>Restoring a version\<close>

text \<open>
  C1 at the scenario of the specification: after \<open>Create\<close>, \<open>RestoreVersion\<close> of version 1
  succeeds and leaves two entries flagged current: it appends the copy as current and
  does not clear the flag of the entries that are there, as \<open>CreateVersion\<close> does.
\<close>

theorem restore_version_two_current:
  "(case Service_RestoreVersion 20 exRepo1 ''t1'' ''tpl-1'' 1 of
      Inl e \<Rightarrow> False
    | Inr (v, r) \<Rightarrow> map IsCurrent (versionsOf r ''tpl-1'') = [True, True])"
  by (simp add: Service_RestoreVersion_def Repo_RestoreVersion_def ex1_templates ex1_versions
      exTemplate_def exVersion1_def Let_def versionsOf_simps)

text \<open>
  C3 at the same call: the entry that \<open>RestoreVersion\<close> appends carries the restored
  schema URL, the new version number, the new \<open>updated_at\<close> and the current flag, and the
  identifier of the entry it was copied from: no call of \<open>newID\<close> is made.
\<close>

theorem restore_version_reuses_identifier:
  "(case Service_RestoreVersion 20 exRepo1 ''t1'' ''tpl-1'' 1 of
      Inl e \<Rightarrow> False
    | Inr (v, r) \<Rightarrow> VersionID v = ''ver-1'' \<and> VersionNumber v = 2 \<and> VCreatedAt v = 20 \<and> IsCurrent v
         \<and> VJSONSchemaURL v = ''s3://schemas/v1.json''
         \<and> map VersionID (versionsOf r ''tpl-1'') = [''ver-1'', ''ver-1''])"
  by (simp add: Service_RestoreVersion_def Repo_RestoreVersion_def ex1_templates ex1_versions
      exTemplate_def exVersion1_def Let_def versionsOf_simps)

section \<open>Soft-deleted templates\<close>

lemma exDeleted_templates:
  "templates exDeleted ''tpl-1''
     = Some (exTemplate\<lparr>TemplateID := ''tpl-1'', CreatedAt := 10, UpdatedAt := 10, Version := 1, DeletedAt := Some 20\<rparr>)"
  by (simp add: exDeleted_def Service_DeleteTemplate_def Repo_SoftDeleteTemplate_def ex1_templates exTemplate_def)

lemma exDeleted_versions: "versionsOf exDeleted ''tpl-1'' = [exVersion1]"
  by (simp add: exDeleted_def Service_DeleteTemplate_def Repo_SoftDeleteTemplate_def ex1_templates exTemplate_def
       versionsOf_simps ex1_versions)

lemma matching_subset:
  "x \<in> set (matching lower trim keys r opt) \<Longrightarrow> listed lower opt (lower (trim (Search opt))) x"
  by (simp add: matching_def)

lemma slice_subset: "slice xs lo hi = Inr ys \<Longrightarrow> set ys \<subseteq> set xs"
  by (auto simp: slice_def split: if_splits dest: in_set_takeD in_set_dropD)

lemma ListTemplates_page_subset:
  assumes "ListTemplates lower trim keys r opt = Inr (page, err)"
  shows "set page \<subseteq> set (matching lower trim keys r opt)"
proof (cases "sint (Offset opt) > int (length (sort_key (\<lambda>t. - UpdatedAt t) (matching lower trim keys r opt)))")
  case True
  with assms show ?thesis by (simp add: ListTemplates_def Let_def)
next
  case False
  with assms obtain stop where
    "slice (sort_key (\<lambda>t. - UpdatedAt t) (matching lower trim keys r opt)) (sint (Offset opt)) stop = Inr page"
    by (auto simp: ListTemplates_def Let_def split: sum.splits)
  from slice_subset [OF this] show ?thesis by simp
qed

lemma ex1_matching:
  assumes "LTenantID opt = ''t1''" and "Search opt = []" and "LDocumentType opt = []"
  shows "matching ToLowerASCII TrimSpace [''tpl-1''] exRepo1 opt
   = [exTemplate\<lparr>TemplateID := ''tpl-1'', CreatedAt := 10, UpdatedAt := 10, Version := 1\<rparr>]"
  using assms
  by (simp add: matching_def List.map_filter_simps ex1_templates listed_def
      TrimSpace_examples ToLowerASCII_Nil exTemplate_def)

lemma exDeleted_matching:
  assumes "\<not> IncludeDeleted opt"
  shows "matching ToLowerASCII TrimSpace [''tpl-1''] exDeleted opt = []"
  using assms
  by (simp add: matching_def List.map_filter_simps exDeleted_templates listed_def exTemplate_def)

text \<open>
  C5, as the code has it: a soft-deleted template is on no page of a listing that does not
  ask for deleted records, and \<open>UpdateTemplate\<close> of the service on it fails and leaves
  the state as it was; the owner gets an error that wraps \<open>ErrInvalidInput\<close>, another
  tenant gets \<open>ErrNotFound\<close>.
\<close>

theorem soft_deleted_guarded:
  assumes "templates r templateID = Some t" and "DeletedAt t \<noteq> None"
  shows "Service_UpdateTemplate newID now r tenantID templateID mutate updatedBy changeSummary
           = (Inl (if TenantID t = tenantID then Errorf ''template is deleted'' ErrInvalidInput
                   else ErrNotFound), r)
    \<and> errors_Is (Errorf ''template is deleted'' ErrInvalidInput) ErrInvalidInput
    \<and> (\<forall>lower trim keys opt page err.
          \<not> IncludeDeleted opt \<and> ListTemplates lower trim keys r opt = Inr (page, err)
          \<longrightarrow> t \<notin> set page)"
proof -
  have upd: "Service_UpdateTemplate newID now r tenantID templateID mutate updatedBy changeSummary
           = (Inl (if TenantID t = tenantID then Errorf ''template is deleted'' ErrInvalidInput
                   else ErrNotFound), r)"
    using assms by (auto simp: Service_UpdateTemplate_def Repo_GetTemplate_def)
  have lst: "t \<notin> set page"
    if "\<not> IncludeDeleted opt" and "ListTemplates lower trim keys r opt = Inr (page, err)"
    for lower trim keys opt page err
  proof
    assume "t \<in> set page"
    with ListTemplates_page_subset [OF that(2)] have "t \<in> set (matching lower trim keys r opt)" by blast
    then have "listed lower opt (lower (trim (Search opt))) t" by (rule matching_subset)
    with that(1) assms(2) show False by (auto simp: listed_def split: if_splits)
  qed
  from upd lst show ?thesis by auto
qed


theorem soft_deleted_guarded_witness:
  "map_option DeletedAt (templates exDeleted ''tpl-1'') = Some (Some 20)
   \<and> Service_UpdateTemplate (fixedIDs [''ver-2'']) 30 exDeleted ''t1'' ''tpl-1'' Inr ''u1'' ''x''
       = (Inl (Errorf ''template is deleted'' ErrInvalidInput), exDeleted)
   \<and> ListTemplates ToLowerASCII TrimSpace [''tpl-1''] exDeleted exListOptions = Inr ([], None)"
proof -
  have lst: "ListTemplates ToLowerASCII TrimSpace [''tpl-1''] exDeleted exListOptions = Inr ([], None)"
    by (simp add: ListTemplates_def exDeleted_matching Let_def slice_def exListOptions_def word_sle_eq)
  show ?thesis
    using soft_deleted_guarded [OF exDeleted_templates, of "fixedIDs [''ver-2'']" 30 "''t1''" Inr "''u1''" "''x''"] lst
    by (simp add: exDeleted_templates exTemplate_def)
qed

text \<open>The claim C5 as stated fails for the other mutating operations, which do not look
  at \<open>deleted_at\<close>: deleting a soft-deleted template again succeeds and moves its
  deletion time.\<close>

theorem soft_deleted_counterexample:
  "map_option DeletedAt (templates exDeleted ''tpl-1'') = Some (Some 20)
   \<and> (case Service_DeleteTemplate 30 exDeleted ''t1'' ''tpl-1'' of
         Inl e \<Rightarrow> False
       | Inr r \<Rightarrow> map_option DeletedAt (templates r ''tpl-1'') = Some (Some 30) \<and> r \<noteq> exDeleted)"
proof -
  have "r \<noteq> exDeleted" if "map_option DeletedAt (templates r ''tpl-1'') = Some (Some 30)" for r
    using that by (auto simp: exDeleted_templates)
  then show ?thesis
  by (simp add: Service_DeleteTemplate_def Repo_SoftDeleteTemplate_def exDeleted_templates exTemplate_def)
qed

text \<open>\<open>RestoreVersion\<close> does not look at \<open>deleted_at\<close> either.\<close>

lemma restore_version_ignores_deleted:
  "(case Service_RestoreVersion 30 exDeleted ''t1'' ''tpl-1'' 1 of
      Inl e \<Rightarrow> False
    | Inr (v, r) \<Rightarrow> map_option Version (templates r ''tpl-1'') = Some 2
        \<and> map_option DeletedAt (templates r ''tpl-1'') = Some (Some 20)
        \<and> length (versionsOf r ''tpl-1'') = 2)"
  by (simp add: Service_RestoreVersion_def Repo_RestoreVersion_def exDeleted_templates exDeleted_versions
      exTemplate_def exVersion1_def Let_def versionsOf_simps)

section \<open>Pagination\<close>

lemma sint_add_no_overflow:
  fixes a b :: go_int
  assumes "0 \<le> sint a" and "0 \<le> sint b" and "sint a + sint b < 2 ^ 63"
  shows "sint (a + b) = sint a + sint b"
proof -
  have "sint (a + b) = signed_take_bit 63 (sint a + sint b)"
    by (simp add: sint_word_ariths)
  also have "\<dots> = sint a + sint b"
    using assms by (intro signed_take_bit_int_eq_self) auto
  finally show ?thesis .
qed

lemma ListTemplates_pages:
  assumes "0 \<le>s Offset opt"
  shows "(Limit opt \<le>s 0 \<longrightarrow>
            ListTemplates lower trim keys r opt
              = Inr (drop (nat (sint (Offset opt)))
                       (sort_key (\<lambda>t. - UpdatedAt t) (matching lower trim keys r opt)), None))
    \<and> (0 <s Limit opt \<and> sint (Offset opt) + sint (Limit opt) < 2 ^ 63 \<longrightarrow>
            ListTemplates lower trim keys r opt
              = Inr (take (nat (sint (Limit opt))) (drop (nat (sint (Offset opt)))
                       (sort_key (\<lambda>t. - UpdatedAt t) (matching lower trim keys r opt))), None))
    \<and> (int (length (matching lower trim keys r opt)) < sint (Offset opt) \<longrightarrow>
            ListTemplates lower trim keys r opt = Inr ([], None))"
proof -
  define xs where "xs = sort_key (\<lambda>t. - UpdatedAt t) (matching lower trim keys r opt)"
  have len: "length xs = length (matching lower trim keys r opt)" by (simp add: xs_def)
  from assms have off: "0 \<le> sint (Offset opt)" by (simp add: word_sle_eq)
  have beyond: "ListTemplates lower trim keys r opt = Inr ([], None)"
    if "int (length (matching lower trim keys r opt)) < sint (Offset opt)"
    using that by (simp add: ListTemplates_def Let_def)
  have all: "ListTemplates lower trim keys r opt = Inr (drop (nat (sint (Offset opt))) xs, None)"
    if "Limit opt \<le>s 0"
  proof (cases "int (length xs) < sint (Offset opt)")
    case True
    with beyond len show ?thesis by simp
  next
    case False
    with that off show ?thesis
      by (simp add: ListTemplates_def Let_def slice_def xs_def [symmetric] len [symmetric])
  qed
  have some: "ListTemplates lower trim keys r opt
              = Inr (take (nat (sint (Limit opt))) (drop (nat (sint (Offset opt))) xs), None)"
    if "0 <s Limit opt" and "sint (Offset opt) + sint (Limit opt) < 2 ^ 63"
  proof (cases "int (length xs) < sint (Offset opt)")
    case True
    with beyond len show ?thesis by simp
  next
    case False
    from that(1) have lim: "0 < sint (Limit opt)" "\<not> Limit opt \<le>s 0"
      by (simp_all add: word_sless_alt word_sle_eq)
    have sum: "sint (Offset opt + Limit opt) = sint (Offset opt) + sint (Limit opt)"
      using off lim(1) that(2) by (intro sint_add_no_overflow) auto
    show ?thesis
    proof (cases "sint (Offset opt) + sint (Limit opt) > int (length xs)")
      case True
      with False off lim sum show ?thesis
        by (simp add: ListTemplates_def Let_def slice_def xs_def [symmetric] len [symmetric])
    next
      case stop: False
      with False off lim sum show ?thesis
        by (simp add: ListTemplates_def Let_def slice_def xs_def [symmetric] len [symmetric])
    qed
  qed
  from beyond all some show ?thesis unfolding xs_def by blast
qed

lemma list_negative_offset_panics:
  assumes "Offset opt <s 0"
  shows "ListTemplates lower trim keys r opt = Inl SliceBoundsOutOfRange"
  using assms by (simp add: ListTemplates_def Let_def slice_def word_sless_alt)

lemma list_in_bounds:
  assumes "0 \<le>s Offset opt" and "Limit opt \<le>s 0 \<or> sint (Offset opt) + sint (Limit opt) < 2 ^ 63"
  shows "\<exists>page. ListTemplates lower trim keys r opt = Inr (page, None)"
proof (cases "Limit opt \<le>s 0")
  case True
  with ListTemplates_pages [OF assms(1), where lower = lower and trim = trim and keys = keys and r = r]
  show ?thesis by blast
next
  case False
  then have "0 <s Limit opt" by (simp add: word_sless_alt word_sle_eq)
  with False assms(2)
    ListTemplates_pages [OF assms(1), where lower = lower and trim = trim and keys = keys and r = r]
  show ?thesis by blast
qed

text \<open>
  C9, as the code has it, for an offset that is not negative and whatever the library
  computes for the search text: a limit \<open>\<le> 0\<close> returns all the matching templates from
  the offset on; a positive limit (whose sum with the offset fits an \<open>int\<close>) returns at
  most that many of them; an offset beyond the number of matching templates returns the
  empty page; and no error is returned.
\<close>

theorem list_pagination:
  assumes "0 \<le>s Offset opt"
  shows "(Limit opt \<le>s 0 \<longrightarrow>
            ListTemplates lower trim keys r opt
              = Inr (drop (nat (sint (Offset opt)))
                       (sort_key (\<lambda>t. - UpdatedAt t) (matching lower trim keys r opt)), None))
    \<and> (0 <s Limit opt \<and> sint (Offset opt) + sint (Limit opt) < 2 ^ 63 \<longrightarrow>
            ListTemplates lower trim keys r opt
              = Inr (take (nat (sint (Limit opt))) (drop (nat (sint (Offset opt)))
                       (sort_key (\<lambda>t. - UpdatedAt t) (matching lower trim keys r opt))), None))
    \<and> (int (length (matching lower trim keys r opt)) < sint (Offset opt) \<longrightarrow>
            ListTemplates lower trim keys r opt = Inr ([], None))"
  using assms by (rule ListTemplates_pages)

text \<open>Two templates of tenant \<open>t1\<close>, the second touched last: the listing has the second
  first; offset 1 with limit 1 and with limit 0 gives the first template, offset 3 the
  empty page.\<close>

lemma exAB_matching:
  assumes "LTenantID opt = ''t1''" and "Search opt = []" and "LDocumentType opt = []"
  shows "sort_key (\<lambda>t. - UpdatedAt t)
           (matching ToLowerASCII TrimSpace [''tpl-1'', ''tpl-2''] exRepoAB opt)
   = [exTemplate\<lparr>TemplateID := ''tpl-2'', CreatedAt := 20, UpdatedAt := 20, Version := 1\<rparr>,
      exTemplate\<lparr>TemplateID := ''tpl-1'', CreatedAt := 10, UpdatedAt := 10, Version := 1\<rparr>]"
  using assms
  by (simp add: matching_def List.map_filter_simps exRepoAB_eq listed_def
      TrimSpace_examples ToLowerASCII_Nil exTemplate_def)

theorem list_pagination_witness:
  "0 \<le>s Offset (exListOptions\<lparr>Limit := 1, Offset := 1\<rparr>)
   \<and> 0 <s Limit (exListOptions\<lparr>Limit := 1, Offset := 1\<rparr>)
   \<and> ListTemplates ToLowerASCII TrimSpace [''tpl-1'', ''tpl-2''] exRepoAB
        (exListOptions\<lparr>Limit := 1, Offset := 1\<rparr>)
       = Inr ([exTemplate\<lparr>TemplateID := ''tpl-1'', CreatedAt := 10, UpdatedAt := 10,
                           Version := 1\<rparr>], None)
   \<and> Limit (exListOptions\<lparr>Offset := 1\<rparr>) \<le>s 0
   \<and> ListTemplates ToLowerASCII TrimSpace [''tpl-1'', ''tpl-2''] exRepoAB
        (exListOptions\<lparr>Offset := 1\<rparr>)
       = Inr ([exTemplate\<lparr>TemplateID := ''tpl-1'', CreatedAt := 10, UpdatedAt := 10,
                           Version := 1\<rparr>], None)
   \<and> ListTemplates ToLowerASCII TrimSpace [''tpl-1'', ''tpl-2''] exRepoAB
        (exListOptions\<lparr>Offset := 3\<rparr>)
       = Inr ([], None)"
proof -
  have m: "sort_key (\<lambda>t. - UpdatedAt t)
           (matching ToLowerASCII TrimSpace [''tpl-1'', ''tpl-2''] exRepoAB
              (exListOptions\<lparr>Limit := l, Offset := off\<rparr>))
   = [exTemplate\<lparr>TemplateID := ''tpl-2'', CreatedAt := 20, UpdatedAt := 20, Version := 1\<rparr>,
      exTemplate\<lparr>TemplateID := ''tpl-1'', CreatedAt := 10, UpdatedAt := 10, Version := 1\<rparr>]"
    for l off
    by (rule exAB_matching) (simp_all add: exListOptions_def)
  have n: "length (matching ToLowerASCII TrimSpace [''tpl-1'', ''tpl-2''] exRepoAB
              (exListOptions\<lparr>Limit := l, Offset := off\<rparr>)) = 2" for l off
    using arg_cong [OF m [where l = l and off = off], where f = length] by simp
  have o1: "0 \<le>s Offset (exListOptions\<lparr>Limit := 1, Offset := 1\<rparr>)"
    and o2: "0 \<le>s Offset (exListOptions\<lparr>Limit := 0, Offset := 1\<rparr>)"
    and o3: "0 \<le>s Offset (exListOptions\<lparr>Limit := 0, Offset := 3\<rparr>)"
    by (simp_all add: word_sle_eq)
  show ?thesis
    using list_pagination [OF o1, where lower = ToLowerASCII and trim = TrimSpace
        and keys = "[''tpl-1'', ''tpl-2'']" and r = exRepoAB]
      list_pagination [OF o2, where lower = ToLowerASCII and trim = TrimSpace
        and keys = "[''tpl-1'', ''tpl-2'']" and r = exRepoAB]
      list_pagination [OF o3, where lower = ToLowerASCII and trim = TrimSpace
        and keys = "[''tpl-1'', ''tpl-2'']" and r = exRepoAB]
    by (simp add: m n word_sle_eq word_sless_alt) (simp add: exListOptions_def)
qed

text \<open>The claim C9 as stated, for every call, fails at a negative offset: with limit 0
  and offset -1 the slice expression panics.\<close>

theorem list_pagination_counterexample:
  "Limit (exListOptions\<lparr>Offset := - 1\<rparr>) \<le>s 0
   \<and> ListTemplates ToLowerASCII TrimSpace [''tpl-1''] exRepo1 (exListOptions\<lparr>Offset := - 1\<rparr>) = Inl SliceBoundsOutOfRange"
  by (simp add: ListTemplates_def Let_def slice_def exListOptions_def word_sle_eq ex1_matching)

text \<open>
  C10 at offset 1 and limit \<open>2\<^sup>6\<^sup>3 - 1\<close>, with one matching template: the offset is
  not negative, \<open>start + opt.Limit\<close> wraps around to \<open>-2\<^sup>6\<^sup>3\<close>, neither test replaces
  it by the length, and \<open>result[start:end]\<close> panics. (The lemmas
  \<open>list_in_bounds\<close> and \<open>list_negative_offset_panics\<close> are the part of the claim that
  holds.)
\<close>

theorem list_limit_overflow:
  "0 \<le>s Offset (exListOptions\<lparr>Limit := 0x7FFFFFFFFFFFFFFF, Offset := 1\<rparr>)
   \<and> ListTemplates ToLowerASCII TrimSpace [''tpl-1''] exRepo1 (exListOptions\<lparr>Limit := 0x7FFFFFFFFFFFFFFF, Offset := 1\<rparr>)
       = Inl SliceBoundsOutOfRange"
  by (simp add: ListTemplates_def Let_def slice_def exListOptions_def word_sle_eq ex1_matching)

section \<open>Counting updates\<close>

lemma sint_succ:
  fixes v :: go_int
  assumes "sint v < 2 ^ 63 - 1"
  shows "sint (v + 1) = sint v + 1"
proof -
  have lo: "- (2 ^ 63) \<le> sint v"
    using sint_ge [of v] by simp
  have "sint (v + 1) = signed_take_bit 63 (sint v + 1)"
    by (simp add: sint_word_ariths)
  also have "\<dots> = sint v + 1"
    using assms lo by (intro signed_take_bit_int_eq_self) auto
  finally show ?thesis .
qed

lemma sint_succ_positive:
  fixes v :: go_int
  assumes "\<not> v + 1 \<le>s 0" and "1 \<le> sint v"
  shows "sint (v + 1) = sint v + 1"
proof (cases "sint v < 2 ^ 63 - 1")
  case True
  then show ?thesis by (rule sint_succ)
next
  case False
  moreover have "sint v < 2 ^ 63" using sint_lt [of v] by simp
  ultimately have "sint v = 2 ^ 63 - 1" by simp
  then have "word_of_int (sint v) = (word_of_int (2 ^ 63 - 1) :: go_int)" by simp
  then have "v = 0x7FFFFFFFFFFFFFFF" by simp
  with assms(1) show ?thesis by (simp add: word_sle_eq)
qed

lemma Repo_CreateVersion_Inr:
  assumes "Repo_CreateVersion r tenantID version = Inr (created, r')"
  shows "r' = r\<lparr>versions := (versions r)(VTemplateID version \<mapsto>
                  map (\<lambda>e. e\<lparr>IsCurrent := False\<rparr>) (versionsOf r (VTemplateID version)) @ [version])\<rparr>"
    and "\<not> VersionNumber version \<le>s 0"
    and "VTemplateID version \<noteq> []"
  using assms
  by (auto simp: Repo_CreateVersion_def TemplateVersion_Validate_def split: option.splits if_splits)

lemma Service_UpdateTemplate_accepted:
  assumes "Service_UpdateTemplate newID now r tenantID templateID mutate updatedBy changeSummary
             = (Inr updated, r')"
  obtains t0 t1 where
    "templates r templateID = Some t0"
    "mutate t0 = Inr t1"
    "updated = t1\<lparr>Version := Version t1 + 1, UpdatedBy := updatedBy, UpdatedAt := now\<rparr>"
    "\<not> Version updated \<le>s 0"
    "templates r' = (templates r)(TemplateID updated \<mapsto> updated)"
    "versions r' = (versions r)(TemplateID updated \<mapsto>
         map (\<lambda>e. e\<lparr>IsCurrent := False\<rparr>) (versionsOf r (TemplateID updated))
         @ [\<lparr>VersionID = newID 0, VTemplateID = TemplateID updated,
              VersionNumber = Version updated, ChangeSummary = changeSummary,
              VJSONSchemaURL = JSONSchemaURL updated, VCreatedBy = updatedBy,
              VCreatedAt = UpdatedAt updated, IsCurrent = True\<rparr>])"
proof -
  from assms obtain t0 where get: "Repo_GetTemplate r tenantID templateID = Inr t0"
    by (auto simp: Service_UpdateTemplate_def split: sum.splits)
  then have t0: "templates r templateID = Some t0"
    by (auto simp: Repo_GetTemplate_def split: option.splits if_splits)
  from assms get obtain t1 where mut: "mutate t0 = Inr t1"
    by (auto simp: Service_UpdateTemplate_def split: sum.splits if_splits)
  define tpl where "tpl = t1\<lparr>Version := Version t1 + 1, UpdatedBy := updatedBy, UpdatedAt := now\<rparr>"
  define version where "version = \<lparr>VersionID = newID 0, VTemplateID = TemplateID tpl,
              VersionNumber = Version tpl, ChangeSummary = changeSummary,
              VJSONSchemaURL = JSONSchemaURL tpl, VCreatedBy = updatedBy,
              VCreatedAt = UpdatedAt tpl, IsCurrent = True\<rparr>"
  from assms get mut obtain r1 u where
    upd: "Repo_UpdateTemplate r tpl = Inr (u, r1)"
    by (auto simp: Service_UpdateTemplate_def Let_def tpl_def split: sum.splits if_splits option.splits)
  then have r1: "r1 = r\<lparr>templates := (templates r)(TemplateID tpl \<mapsto> tpl)\<rparr>" and u: "u = tpl"
    by (auto simp: Repo_UpdateTemplate_def split: option.splits if_splits)
  from assms get mut upd obtain c where
    cv: "Repo_CreateVersion r1 tenantID version = Inr (c, r')" and res: "updated = u"
    by (auto simp: Service_UpdateTemplate_def Let_def tpl_def [symmetric] version_def [symmetric]
        split: sum.splits if_splits option.splits)
  note eff = Repo_CreateVersion_Inr [OF cv]
  show thesis
  proof (rule that [OF t0 mut])
    show "updated = t1\<lparr>Version := Version t1 + 1, UpdatedBy := updatedBy, UpdatedAt := now\<rparr>"
      using res u by (simp add: tpl_def)
    show "\<not> Version updated \<le>s 0" using eff(2) res u by (simp add: version_def)
    show "templates r' = (templates r)(TemplateID updated \<mapsto> updated)"
      using eff(1) r1 res u by simp
    show "versions r' = (versions r)(TemplateID updated \<mapsto>
         map (\<lambda>e. e\<lparr>IsCurrent := False\<rparr>) (versionsOf r (TemplateID updated))
         @ [\<lparr>VersionID = newID 0, VTemplateID = TemplateID updated,
              VersionNumber = Version updated, ChangeSummary = changeSummary,
              VJSONSchemaURL = JSONSchemaURL updated, VCreatedBy = updatedBy,
              VCreatedAt = UpdatedAt updated, IsCurrent = True\<rparr>])"
      using eff(1) r1 res u by (simp add: version_def versionsOf_simps)
  qed
qed


lemma Service_CreateTemplate_created:
  assumes "Service_CreateTemplate newID now r tpl = (Inr created, r')"
  shows "created = tpl\<lparr>TemplateID := newID 0, CreatedAt := now, UpdatedAt := now, Version := 1\<rparr>"
    and "templates r (newID 0) = None"
    and "templates r' = (templates r)(newID 0 \<mapsto> created)"
    and "versions r' = (versions r)(newID 0 \<mapsto>
           map (\<lambda>e. e\<lparr>IsCurrent := False\<rparr>) (versionsOf r (newID 0))
           @ [\<lparr>VersionID = newID 1, VTemplateID = newID 0, VersionNumber = 1,
                ChangeSummary = ''initial version'', VJSONSchemaURL = JSONSchemaURL tpl,
                VCreatedBy = CreatedBy tpl, VCreatedAt = now, IsCurrent = True\<rparr>])"
proof -
  define tpl1 where "tpl1 = tpl\<lparr>TemplateID := newID 0, CreatedAt := now, UpdatedAt := now, Version := 1\<rparr>"
  define version where "version = \<lparr>VersionID = newID 1, VTemplateID = TemplateID tpl1,
      VersionNumber = Version tpl1, ChangeSummary = ''initial version'',
      VJSONSchemaURL = JSONSchemaURL tpl1, VCreatedBy = CreatedBy tpl1, VCreatedAt = now,
      IsCurrent = True\<rparr>"
  from assms obtain c r1 where cr: "Repo_CreateTemplate r tpl1 = Inr (c, r1)"
    by (auto simp: Service_CreateTemplate_def Let_def tpl1_def split: option.splits sum.splits)
  then have fresh: "templates r (newID 0) = None"
    and r1: "r1 = r\<lparr>templates := (templates r)(newID 0 \<mapsto> tpl1)\<rparr>" and c: "c = tpl1"
    by (auto simp: Repo_CreateTemplate_def tpl1_def split: option.splits)
  from assms cr obtain cv where cv: "Repo_CreateVersion r1 (TenantID tpl1) version = Inr (cv, r')"
    and res: "created = c"
    by (auto simp: Service_CreateTemplate_def Let_def tpl1_def [symmetric] version_def [symmetric]
        simp del: One_nat_def split: option.splits sum.splits)
  note eff = Repo_CreateVersion_Inr [OF cv]
  show "created = tpl\<lparr>TemplateID := newID 0, CreatedAt := now, UpdatedAt := now, Version := 1\<rparr>"
    using res c by (simp add: tpl1_def)
  show "templates r (newID 0) = None" by (rule fresh)
  show "templates r' = (templates r)(newID 0 \<mapsto> created)"
    using eff(1) r1 res c by simp
  show "versions r' = (versions r)(newID 0 \<mapsto>
           map (\<lambda>e. e\<lparr>IsCurrent := False\<rparr>) (versionsOf r (newID 0))
           @ [\<lparr>VersionID = newID 1, VTemplateID = newID 0, VersionNumber = 1,
                ChangeSummary = ''initial version'', VJSONSchemaURL = JSONSchemaURL tpl,
                VCreatedBy = CreatedBy tpl, VCreatedAt = now, IsCurrent = True\<rparr>])"
    using eff(1) r1 by (simp add: version_def tpl1_def versionsOf_simps)
qed

lemma versionsOf_eq: "versions r' = (versions r)(k \<mapsto> vs) \<Longrightarrow> versionsOf r' k = vs"
  by (simp add: versionsOf_def)

lemma versionsOf_other:
  "versions r' = (versions r)(k \<mapsto> vs) \<Longrightarrow> k' \<noteq> k \<Longrightarrow> versionsOf r' k' = versionsOf r k'"
  by (simp add: versionsOf_def)

lemma filter_current_append:
  "filter IsCurrent (map (\<lambda>e. e\<lparr>IsCurrent := False\<rparr>) vs @ [v]) = (if IsCurrent v then [v] else [])"
  by (simp add: filter_empty_conv)

lemma run_updates_versions:
  assumes "run_updates r tenantID templateID calls = Some rN"
    and "list_all (\<lambda>(newID, now, mutate, updatedBy, changeSummary).
            keeps_version mutate \<and> keeps_identifier mutate) calls"
    and "templates r templateID = Some t" and "TemplateID t = templateID"
    and "1 \<le> sint (Version t)"
  shows "\<exists>t' v'. templates rN templateID = Some t' \<and> TemplateID t' = templateID
           \<and> sint (Version t') = sint (Version t) + int (length calls)
           \<and> (calls \<noteq> [] \<longrightarrow> filter IsCurrent (versionsOf rN templateID) = [v']
                 \<and> VersionNumber v' = Version t')"
  using assms
proof (induction calls arbitrary: r t)
  case Nil
  then show ?case by simp
next
  case (Cons call calls)
  obtain newID now mutate updatedBy changeSummary
    where call: "call = (newID, now, mutate, updatedBy, changeSummary)"
    by (cases call) auto
  from Cons.prems(1) call obtain updated r1 where
    step: "Service_UpdateTemplate newID now r tenantID templateID mutate updatedBy changeSummary
             = (Inr updated, r1)"
    and rest: "run_updates r1 tenantID templateID calls = Some rN"
    by (auto split: sum.splits prod.splits)
  from Cons.prems(2) call have keep: "keeps_version mutate" "keeps_identifier mutate"
    and keeps: "list_all (\<lambda>(newID, now, mutate, updatedBy, changeSummary).
            keeps_version mutate \<and> keeps_identifier mutate) calls"
    by simp_all
  from step obtain t0 t1 where
    t0: "templates r templateID = Some t0" and mut: "mutate t0 = Inr t1"
    and upd: "updated = t1\<lparr>Version := Version t1 + 1, UpdatedBy := updatedBy, UpdatedAt := now\<rparr>"
    and pos: "\<not> Version updated \<le>s 0"
    and tpls: "templates r1 = (templates r)(TemplateID updated \<mapsto> updated)"
    and vers: "versions r1 = (versions r)(TemplateID updated \<mapsto>
         map (\<lambda>e. e\<lparr>IsCurrent := False\<rparr>) (versionsOf r (TemplateID updated))
         @ [\<lparr>VersionID = newID 0, VTemplateID = TemplateID updated,
              VersionNumber = Version updated, ChangeSummary = changeSummary,
              VJSONSchemaURL = JSONSchemaURL updated, VCreatedBy = updatedBy,
              VCreatedAt = UpdatedAt updated, IsCurrent = True\<rparr>])"
    by (rule Service_UpdateTemplate_accepted)
  from t0 Cons.prems(3) have [simp]: "t0 = t" by simp
  from keep mut have same: "Version t1 = Version t" "TemplateID t1 = TemplateID t"
    by (auto simp: keeps_version_def keeps_identifier_def)
  with upd Cons.prems(4) have id: "TemplateID updated = templateID"
    and ver: "Version updated = Version t + 1" by simp_all
  from pos ver Cons.prems(5) have sver: "sint (Version updated) = sint (Version t) + 1"
    by (simp add: sint_succ_positive)
  have cur: "filter IsCurrent (versionsOf r1 templateID)
      = [\<lparr>VersionID = newID 0, VTemplateID = TemplateID updated,
              VersionNumber = Version updated, ChangeSummary = changeSummary,
              VJSONSchemaURL = JSONSchemaURL updated, VCreatedBy = updatedBy,
              VCreatedAt = UpdatedAt updated, IsCurrent = True\<rparr>]"
    using versionsOf_eq [OF vers] id by (simp add: filter_current_append)
  have t1': "templates r1 templateID = Some updated" using tpls id by simp
  from Cons.IH [OF rest keeps t1' id] sver Cons.prems(5)
  obtain t' v' where fin: "templates rN templateID = Some t'" "TemplateID t' = templateID"
     "sint (Version t') = sint (Version updated) + int (length calls)"
     "calls \<noteq> [] \<longrightarrow> filter IsCurrent (versionsOf rN templateID) = [v'] \<and> VersionNumber v' = Version t'"
    by auto
  show ?case
  proof (cases "calls = []")
    case True
    with rest have "rN = r1" by simp
    with t1' id sver cur True show ?thesis by simp
  next
    case False
    with fin sver show ?thesis by auto
  qed
qed

text \<open>
  C7, as the code has it: after a successful \<open>Create\<close> and \<open>N\<close> accepted updates of the
  created template, by closures that leave the version counter and the identifier of the
  template alone, the version of the template is \<open>1 + N\<close> and exactly one entry of its
  history is current, with the version of the template as its number.
\<close>

theorem updates_count_versions:
  assumes "Service_CreateTemplate newID now r tpl = (Inr created, r1)"
    and "run_updates r1 (TenantID created) (TemplateID created) calls = Some rN"
    and "list_all (\<lambda>(newID, now, mutate, updatedBy, changeSummary).
            keeps_version mutate \<and> keeps_identifier mutate) calls"
  shows "\<exists>t v. templates rN (TemplateID created) = Some t
           \<and> sint (Version t) = 1 + int (length calls)
           \<and> filter IsCurrent (versionsOf rN (TemplateID created)) = [v]
           \<and> VersionNumber v = Version t"
proof -
  note cr = Service_CreateTemplate_created [OF assms(1)]
  from cr(1) have id: "TemplateID created = newID 0" and v1: "Version created = 1" by simp_all
  have t: "templates r1 (TemplateID created) = Some created" using cr(3) id by simp
  have one: "1 \<le> sint (Version created)" using v1 by simp
  from run_updates_versions [OF assms(2,3) t refl one]
  obtain t' v' where fin: "templates rN (TemplateID created) = Some t'"
     "sint (Version t') = sint (Version created) + int (length calls)"
     "calls \<noteq> [] \<longrightarrow> filter IsCurrent (versionsOf rN (TemplateID created)) = [v'] \<and> VersionNumber v' = Version t'"
    by auto
  show ?thesis
  proof (cases "calls = []")
    case True
    with assms(2) have "rN = r1" by simp
    moreover have "filter IsCurrent (versionsOf r1 (TemplateID created))
       = [\<lparr>VersionID = newID 1, VTemplateID = newID 0, VersionNumber = 1,
                ChangeSummary = ''initial version'', VJSONSchemaURL = JSONSchemaURL tpl,
                VCreatedBy = CreatedBy tpl, VCreatedAt = now, IsCurrent = True\<rparr>]"
      using versionsOf_eq [OF cr(4)] id by (simp add: filter_current_append)
    ultimately show ?thesis using t v1 True by simp
  next
    case False
    with fin v1 show ?thesis by auto
  qed
qed

lemma ex2_update:
  "Service_UpdateTemplate (fixedIDs [''ver-2'']) 20 exRepo1 ''t1'' ''tpl-1'' exRename ''u1'' ''rename''
     = (Inr (exTemplate\<lparr>TemplateID := ''tpl-1'', CreatedAt := 10, UpdatedAt := 20, Version := 2,
                         Name := ''Warranty EU v2''\<rparr>), exRepo2)"
  unfolding exRepo2_def
  by (simp add: exRepo1_eq run_defs exRename_def)

lemma exRepo2_eq:
  "exRepo2 = \<lparr>templates = [''tpl-1'' \<mapsto> exTemplate\<lparr>TemplateID := ''tpl-1'', CreatedAt := 10,
                              UpdatedAt := 20, Version := 2, Name := ''Warranty EU v2''\<rparr>],
              versions = [''tpl-1'' \<mapsto> [exVersion1\<lparr>IsCurrent := False\<rparr>,
                             \<lparr>VersionID = ''ver-2'', VTemplateID = ''tpl-1'', VersionNumber = 2,
                              ChangeSummary = ''rename'', VJSONSchemaURL = ''s3://schemas/v1.json'',
                              VCreatedBy = ''u1'', VCreatedAt = 20, IsCurrent = True\<rparr>]]\<rparr>"
  unfolding exRepo2_def
  by (simp add: exRepo1_eq run_defs exRename_def)

lemma exRename_keeps: "keeps_version exRename" "keeps_identifier exRename"
  by (auto simp: keeps_version_def keeps_identifier_def exRename_def)

theorem updates_count_versions_witness:
  "fst (Service_CreateTemplate (fixedIDs [''tpl-1'', ''ver-1'']) 10 NewInMemoryRepository exTemplate)
     = Inr (exTemplate\<lparr>TemplateID := ''tpl-1'', CreatedAt := 10, UpdatedAt := 10, Version := 1\<rparr>)
   \<and> run_updates exRepo1 ''t1'' ''tpl-1'' [(fixedIDs [''ver-2''], 20, exRename, ''u1'', ''rename'')]
        = Some exRepo2
   \<and> keeps_version exRename \<and> keeps_identifier exRename
   \<and> map_option (\<lambda>t. sint (Version t)) (templates exRepo2 ''tpl-1'') = Some 2
   \<and> map (\<lambda>v. (VersionNumber v, IsCurrent v)) (versionsOf exRepo2 ''tpl-1'') = [(1, False), (2, True)]"
proof -
  have run: "run_updates exRepo1 (TenantID (exTemplate\<lparr>TemplateID := ''tpl-1'', CreatedAt := 10, UpdatedAt := 10, Version := 1\<rparr>))
      (TemplateID (exTemplate\<lparr>TemplateID := ''tpl-1'', CreatedAt := 10, UpdatedAt := 10, Version := 1\<rparr>))
      [(fixedIDs [''ver-2''], 20, exRename, ''u1'', ''rename'')] = Some exRepo2"
    by (simp add: ex2_update) (simp add: exTemplate_def ex2_update)
  have keeps: "list_all (\<lambda>(newID, now, mutate, updatedBy, changeSummary).
            keeps_version mutate \<and> keeps_identifier mutate) [(fixedIDs [''ver-2''], 20, exRename, ''u1'', ''rename'')]"
    by (simp add: exRename_keeps)
  have vs: "map (\<lambda>v. (VersionNumber v, IsCurrent v)) (versionsOf exRepo2 ''tpl-1'') = [(1, False), (2, True)]"
    by (simp add: exRepo2_eq versionsOf_def exVersion1_def)
  have c: "fst (Service_CreateTemplate (fixedIDs [''tpl-1'', ''ver-1'']) 10 NewInMemoryRepository exTemplate)
     = Inr (exTemplate\<lparr>TemplateID := ''tpl-1'', CreatedAt := 10, UpdatedAt := 10, Version := 1\<rparr>)"
    by (simp add: ex1_create)
  have run2: "run_updates exRepo1 ''t1'' ''tpl-1'' [(fixedIDs [''ver-2''], 20, exRename, ''u1'', ''rename'')]
        = Some exRepo2"
    by (simp add: ex2_update)
  have tv: "map_option (\<lambda>t. sint (Version t)) (templates exRepo2 ''tpl-1'') = Some 2"
    by (simp add: exRepo2_eq exTemplate_def)
  from updates_count_versions [OF ex1_create run keeps] c run2 vs tv
  show ?thesis
    by (simp add: exRename_keeps)
qed

text \<open>
  The claim C7 as stated asks only that the closure leave the version counter alone. A
  closure that sets the identifier to that of another template of the tenant leaves the
  counter alone, and its update is accepted, but it is the other template that is
  replaced and gets the new entry: the template that was updated stays at version 1.
\<close>

theorem updates_count_versions_counterexample:
  "fst (Service_CreateTemplate (fixedIDs [''tpl-2'', ''ver-2'']) 20 exRepo1 exTemplate)
     = Inr (exTemplate\<lparr>TemplateID := ''tpl-2'', CreatedAt := 20, UpdatedAt := 20, Version := 1\<rparr>)
   \<and> keeps_version exRetarget
   \<and> (case run_updates exRepoAB ''t1'' ''tpl-2'' [(fixedIDs [''ver-3''], 30, exRetarget, ''u1'', ''retarget'')] of
         None \<Rightarrow> False
       | Some rN \<Rightarrow> map_option (\<lambda>t. sint (Version t)) (templates rN ''tpl-2'') = Some 1
            \<and> map_option (\<lambda>t. sint (Version t)) (templates rN ''tpl-1'') = Some 2)"
proof -
  have k: "keeps_version exRetarget"
    by (auto simp: keeps_version_def exRetarget_def)
  have c: "fst (Service_CreateTemplate (fixedIDs [''tpl-2'', ''ver-2'']) 20 exRepo1 exTemplate)
     = Inr (exTemplate\<lparr>TemplateID := ''tpl-2'', CreatedAt := 20, UpdatedAt := 20, Version := 1\<rparr>)"
    by (simp add: exRepo1_eq run_defs)
  have u: "(case run_updates exRepoAB ''t1'' ''tpl-2'' [(fixedIDs [''ver-3''], 30, exRetarget, ''u1'', ''retarget'')] of
         None \<Rightarrow> False
       | Some rN \<Rightarrow> map_option (\<lambda>t. sint (Version t)) (templates rN ''tpl-2'') = Some 1
            \<and> map_option (\<lambda>t. sint (Version t)) (templates rN ''tpl-1'') = Some 2)"
    by (simp add: exRepoAB_eq run_defs exRetarget_def)
  from k c u show ?thesis by simp
qed

section \<open>Version numbers of a history\<close>

lemma consistent_None: "consistent C r \<Longrightarrow> templates r k = None \<Longrightarrow> versionsOf r k = []"
  unfolding consistent_def by (erule allE [of _ k]) simp

lemma consistent_Some:
  "consistent C r \<Longrightarrow> templates r k = Some t
   \<Longrightarrow> k \<noteq> [] \<and> TemplateID t = k \<and> 1 \<le> sint (Version t)
       \<and> (k \<notin> C \<longrightarrow> numbered t (versionsOf r k))"
  unfolding consistent_def by (erule allE [of _ k]) simp

lemma consistent_update:
  assumes "consistent C r"
    and "templates r' = (templates r)(k \<mapsto> t)"
    and "versionsOf r' k = vs"
    and "\<And>k'. k' \<noteq> k \<Longrightarrow> versionsOf r' k' = versionsOf r k'"
    and "k \<noteq> []" and "TemplateID t = k" and "1 \<le> sint (Version t)"
    and "k \<notin> C' \<Longrightarrow> numbered t vs"
    and "C \<subseteq> C'"
  shows "consistent C' r'"
  unfolding consistent_def
proof
  fix k'
  show "case templates r' k' of None \<Rightarrow> versionsOf r' k' = []
        | Some t \<Rightarrow> k' \<noteq> [] \<and> TemplateID t = k' \<and> 1 \<le> sint (Version t)
                    \<and> (k' \<notin> C' \<longrightarrow> numbered t (versionsOf r' k'))"
  proof (cases "k' = k")
    case True
    with assms(2,3,5,6,7,8) show ?thesis by simp
  next
    case False
    then have same: "templates r' k' = templates r k'" "versionsOf r' k' = versionsOf r k'"
      using assms(2) assms(4) by simp_all
    show ?thesis
    proof (cases "templates r k'")
      case None
      with same consistent_None [OF assms(1) None] show ?thesis by simp
    next
      case (Some t0)
      with same consistent_Some [OF assms(1) Some] assms(9) show ?thesis by auto
    qed
  qed
qed

lemma sint_succ_below_max:
  fixes v :: go_int
  assumes "v \<noteq> maxInt"
  shows "sint (v + 1) = sint v + 1"
proof (rule sint_succ)
  have "sint v < 2 ^ 63" using sint_lt [of v] by simp
  moreover have "sint v \<noteq> 2 ^ 63 - 1"
  proof
    assume "sint v = 2 ^ 63 - 1"
    then have "word_of_int (sint v) = (word_of_int (2 ^ 63 - 1) :: go_int)" by simp
    then have "v = maxInt" by (simp add: maxInt_def)
    with assms show False by simp
  qed
  ultimately show "sint v < 2 ^ 63 - 1" by simp
qed

lemma numbered_first: "Version t = 1 \<Longrightarrow> VersionNumber v = 1 \<Longrightarrow> numbered t [v]"
  by (simp add: numbered_def)

lemma numbered_append:
  assumes "numbered t vs" and "Version t \<noteq> maxInt"
    and "Version t' = Version t + 1" and "VersionNumber v = Version t'"
    and "map (\<lambda>v. sint (VersionNumber v)) vs' = map (\<lambda>v. sint (VersionNumber v)) vs"
  shows "numbered t' (vs' @ [v])"
proof -
  from assms(2) have s: "sint (Version t + 1) = sint (Version t) + 1"
    by (rule sint_succ_below_max)
  from assms(1) have one: "1 \<le> sint (Version t)"
    and ns: "map (\<lambda>v. sint (VersionNumber v)) vs = [1..sint (Version t)]"
    by (simp_all add: numbered_def)
  have "[1..sint (Version t) + 1] = [1..sint (Version t)] @ [sint (Version t) + 1]"
    using one by (simp add: upto_rec2)
  with assms(3,4,5) s ns one show ?thesis
    by (simp add: numbered_def)
qed

lemma numbered_same_version: "numbered t vs \<Longrightarrow> Version t' = Version t \<Longrightarrow> numbered t' vs"
  by (simp add: numbered_def)

lemma cleared_numbers:
  "map (\<lambda>v. sint (VersionNumber v)) (map (\<lambda>e. e\<lparr>IsCurrent := False\<rparr>) vs)
     = map (\<lambda>v. sint (VersionNumber v)) vs"
  by (simp add: comp_def)

lemma Template_Validate_None:
  assumes "Template_Validate trim t = None"
  shows "JSONSchemaURL t \<noteq> []" and "CreatedBy t \<noteq> []" and "UpdatedBy t \<noteq> []"
  using assms by (auto simp: Template_Validate_def split: if_splits)

lemma Repo_CreateVersion_succeeds:
  assumes "templates r (VTemplateID v) = Some t" and "TenantID t = tenantID"
    and "TemplateVersion_Validate v = None"
  shows "\<exists>c r'. Repo_CreateVersion r tenantID v = Inr (c, r')"
  using assms by (simp add: Repo_CreateVersion_def)

lemma Service_CreateTemplate_failed:
  assumes "Service_CreateTemplate newID now r tpl = (Inl err, r')" and "newID 0 \<noteq> []"
  shows "r' = r"
proof -
  define tpl1 where "tpl1 = tpl\<lparr>TemplateID := newID 0, CreatedAt := now, UpdatedAt := now, Version := 1\<rparr>"
  define version where "version = \<lparr>VersionID = newID 1, VTemplateID = TemplateID tpl1,
      VersionNumber = Version tpl1, ChangeSummary = ''initial version'',
      VJSONSchemaURL = JSONSchemaURL tpl1, VCreatedBy = CreatedBy tpl1, VCreatedAt = now,
      IsCurrent = True\<rparr>"
  note unfold = Service_CreateTemplate_def Let_def tpl1_def [symmetric] version_def [symmetric]
  show ?thesis
  proof (cases "Template_Validate TrimSpace tpl1")
    case (Some e)
    with assms(1) show ?thesis by (simp add: unfold del: One_nat_def)
  next
    case None
    show ?thesis
    proof (cases "Repo_CreateTemplate r tpl1")
      case (Inl e)
      with None assms(1) show ?thesis by (simp add: unfold del: One_nat_def)
    next
      case (Inr p)
      obtain c r1 where p: "p = (c, r1)" by (cases p)
      with Inr have r1: "templates r1 (newID 0) = Some tpl1"
        by (auto simp: Repo_CreateTemplate_def tpl1_def split: option.splits)
      have valid: "TemplateVersion_Validate version = None"
        using Template_Validate_None [OF None] assms(2)
        by (simp add: TemplateVersion_Validate_def version_def tpl1_def word_sle_eq)
      have vt: "VTemplateID version = newID 0" by (simp add: version_def tpl1_def)
      have "\<exists>c r2. Repo_CreateVersion r1 (TenantID tpl1) version = Inr (c, r2)"
        using r1 valid vt by (simp add: Repo_CreateVersion_def)
      with None Inr p assms(1) show ?thesis
        by (auto simp: unfold simp del: One_nat_def)
    qed
  qed
qed

lemma consistent_create:
  assumes "consistent C r" and "newID 0 \<noteq> []"
    and "Service_CreateTemplate newID now r tpl = (res, r')"
  shows "consistent C r'"
proof (cases res)
  case (Inl err)
  with assms(3) have "Service_CreateTemplate newID now r tpl = (Inl err, r')" by simp
  from Service_CreateTemplate_failed [OF this assms(2)] assms(1) show ?thesis by simp
next
  case (Inr created)
  with assms(3) have run: "Service_CreateTemplate newID now r tpl = (Inr created, r')" by simp
  note cr = Service_CreateTemplate_created [OF run]
  from consistent_None [OF assms(1) cr(2)] have empty: "versionsOf r (newID 0) = []" .
  show ?thesis
  proof (rule consistent_update [OF assms(1) cr(3)])
    show "versionsOf r' (newID 0) = [\<lparr>VersionID = newID 1, VTemplateID = newID 0, VersionNumber = 1,
                ChangeSummary = ''initial version'', VJSONSchemaURL = JSONSchemaURL tpl,
                VCreatedBy = CreatedBy tpl, VCreatedAt = now, IsCurrent = True\<rparr>]"
      using versionsOf_eq [OF cr(4)] empty by simp
    show "versionsOf r' k' = versionsOf r k'" if "k' \<noteq> newID 0" for k'
      using versionsOf_other [OF cr(4) that] .
    show "newID 0 \<noteq> []" by (rule assms(2))
    show "TemplateID created = newID 0" using cr(1) by simp
    show "1 \<le> sint (Version created)" using cr(1) by simp
    show "C \<subseteq> C" ..
    show "numbered created [\<lparr>VersionID = newID 1, VTemplateID = newID 0, VersionNumber = 1,
                ChangeSummary = ''initial version'', VJSONSchemaURL = JSONSchemaURL tpl,
                VCreatedBy = CreatedBy tpl, VCreatedAt = now, IsCurrent = True\<rparr>]"
      using cr(1) by (intro numbered_first) simp_all
  qed
qed


lemma Service_UpdateTemplate_failed:
  assumes "Service_UpdateTemplate newID now r tenantID templateID mutate updatedBy changeSummary
             = (Inl err, r')"
    and "consistent C r" and "keeps_version mutate" and "keeps_identifier mutate"
    and "below_max r templateID"
  shows "r' = r"
proof (cases "Repo_GetTemplate r tenantID templateID")
  case (Inl e)
  with assms(1) show ?thesis by (simp add: Service_UpdateTemplate_def)
next
  case get: (Inr t0)
  then have t0: "templates r templateID = Some t0" and owner: "TenantID t0 = tenantID"
    by (auto simp: Repo_GetTemplate_def split: option.splits if_splits)
  show ?thesis
  proof (cases "DeletedAt t0 \<noteq> None")
    case True
    with get assms(1) show ?thesis by (simp add: Service_UpdateTemplate_def)
  next
    case live: False
    show ?thesis
    proof (cases "mutate t0")
      case (Inl e)
      with get live assms(1) show ?thesis by (simp add: Service_UpdateTemplate_def)
    next
      case mut: (Inr t1)
      define tpl where "tpl = t1\<lparr>Version := Version t1 + 1, UpdatedBy := updatedBy, UpdatedAt := now\<rparr>"
      define version where "version = \<lparr>VersionID = newID 0, VTemplateID = TemplateID tpl,
              VersionNumber = Version tpl, ChangeSummary = changeSummary,
              VJSONSchemaURL = JSONSchemaURL tpl, VCreatedBy = updatedBy,
              VCreatedAt = UpdatedAt tpl, IsCurrent = True\<rparr>"
      note unfold = Service_UpdateTemplate_def Let_def tpl_def [symmetric] version_def [symmetric]
      show ?thesis
      proof (cases "Template_Validate TrimSpace tpl")
        case (Some e)
        with get live mut assms(1) show ?thesis by (simp add: unfold)
      next
        case valid: None
        show ?thesis
        proof (cases "Repo_UpdateTemplate r tpl")
          case (Inl e)
          with get live mut valid assms(1) show ?thesis by (simp add: unfold)
        next
          case upd: (Inr p)
          obtain u r1 where p: "p = (u, r1)" by (cases p)
          from consistent_Some [OF assms(2) t0] have key: "templateID \<noteq> []"
            and id0: "TemplateID t0 = templateID" and one: "1 \<le> sint (Version t0)"
            by simp_all
          from assms(3,4) mut have same: "Version t1 = Version t0" "TemplateID t1 = TemplateID t0"
            by (auto simp: keeps_version_def keeps_identifier_def)
          then have id: "TemplateID tpl = templateID" and ver: "Version tpl = Version t0 + 1"
            using id0 by (simp_all add: tpl_def)
          from assms(5) t0 have "Version t0 \<noteq> maxInt" by (simp add: below_max_def)
          then have "sint (Version tpl) = sint (Version t0) + 1"
            using ver by (simp add: sint_succ_below_max)
          with one have pos: "\<not> Version tpl \<le>s 0" by (simp add: word_sle_eq)
          from upd p id t0 have r1: "templates r1 templateID = Some tpl"
            and ten: "TenantID t0 = TenantID tpl"
            by (auto simp: Repo_UpdateTemplate_def split: option.splits if_splits)
          have "UpdatedBy tpl = updatedBy" by (simp add: tpl_def)
          with Template_Validate_None [OF valid] key id pos
          have vv: "TemplateVersion_Validate version = None"
            by (simp add: TemplateVersion_Validate_def version_def)
          have vt: "VTemplateID version = templateID" using id by (simp add: version_def)
          have "\<exists>c r2. Repo_CreateVersion r1 tenantID version = Inr (c, r2)"
            using r1 vv vt ten owner by (simp add: Repo_CreateVersion_def)
          with get live mut valid upd p assms(1) show ?thesis
            by (auto simp: unfold)
        qed
      qed
    qed
  qed
qed

lemma consistent_update_op:
  assumes "consistent C r" and "keeps_version mutate" and "keeps_identifier mutate"
    and "below_max r templateID"
    and "Service_UpdateTemplate newID now r tenantID templateID mutate updatedBy changeSummary
           = (res, r')"
  shows "consistent C r'"
proof (cases res)
  case (Inl err)
  with assms(5) have "Service_UpdateTemplate newID now r tenantID templateID mutate updatedBy
      changeSummary = (Inl err, r')" by simp
  from Service_UpdateTemplate_failed [OF this assms(1-4)] assms(1) show ?thesis by simp
next
  case (Inr updated)
  with assms(5) have run: "Service_UpdateTemplate newID now r tenantID templateID mutate updatedBy
      changeSummary = (Inr updated, r')" by simp
  from run obtain t0 t1 where
    t0: "templates r templateID = Some t0" and mut: "mutate t0 = Inr t1"
    and upd: "updated = t1\<lparr>Version := Version t1 + 1, UpdatedBy := updatedBy, UpdatedAt := now\<rparr>"
    and tpls: "templates r' = (templates r)(TemplateID updated \<mapsto> updated)"
    and vers: "versions r' = (versions r)(TemplateID updated \<mapsto>
         map (\<lambda>e. e\<lparr>IsCurrent := False\<rparr>) (versionsOf r (TemplateID updated))
         @ [\<lparr>VersionID = newID 0, VTemplateID = TemplateID updated,
              VersionNumber = Version updated, ChangeSummary = changeSummary,
              VJSONSchemaURL = JSONSchemaURL updated, VCreatedBy = updatedBy,
              VCreatedAt = UpdatedAt updated, IsCurrent = True\<rparr>])"
    by (rule Service_UpdateTemplate_accepted)
  from consistent_Some [OF assms(1) t0] have key: "templateID \<noteq> []"
    and id0: "TemplateID t0 = templateID" and one: "1 \<le> sint (Version t0)"
    and num: "templateID \<notin> C \<Longrightarrow> numbered t0 (versionsOf r templateID)"
    by simp_all
  from assms(2,3) mut have same: "Version t1 = Version t0" "TemplateID t1 = TemplateID t0"
    by (auto simp: keeps_version_def keeps_identifier_def)
  with upd id0 have id: "TemplateID updated = templateID" and ver: "Version updated = Version t0 + 1"
    by simp_all
  from assms(4) t0 have below: "Version t0 \<noteq> maxInt" by (simp add: below_max_def)
  show ?thesis
  proof (rule consistent_update [OF assms(1) tpls])
    show "versionsOf r' (TemplateID updated)
           = map (\<lambda>e. e\<lparr>IsCurrent := False\<rparr>) (versionsOf r (TemplateID updated))
         @ [\<lparr>VersionID = newID 0, VTemplateID = TemplateID updated,
              VersionNumber = Version updated, ChangeSummary = changeSummary,
              VJSONSchemaURL = JSONSchemaURL updated, VCreatedBy = updatedBy,
              VCreatedAt = UpdatedAt updated, IsCurrent = True\<rparr>]"
      by (rule versionsOf_eq [OF vers])
    show "versionsOf r' k' = versionsOf r k'" if "k' \<noteq> TemplateID updated" for k'
      using versionsOf_other [OF vers that] .
    show "TemplateID updated \<noteq> []" using id key by simp
    show "TemplateID updated = TemplateID updated" ..
    show "1 \<le> sint (Version updated)"
      using one ver sint_succ_below_max [OF below] by simp
    show "C \<subseteq> C" ..
    show "numbered updated (map (\<lambda>e. e\<lparr>IsCurrent := False\<rparr>) (versionsOf r (TemplateID updated))
         @ [\<lparr>VersionID = newID 0, VTemplateID = TemplateID updated,
              VersionNumber = Version updated, ChangeSummary = changeSummary,
              VJSONSchemaURL = JSONSchemaURL updated, VCreatedBy = updatedBy,
              VCreatedAt = UpdatedAt updated, IsCurrent = True\<rparr>])"
      if "TemplateID updated \<notin> C"
      using num [OF that [unfolded id]] below ver unfolding id
      by (rule numbered_append) (simp_all add: cleared_numbers)
  qed
qed


lemma consistent_touch:
  assumes "consistent C r" and "templates r k = Some t0"
    and "templates r' = (templates r)(k \<mapsto> t)" and "versions r' = versions r"
    and "TemplateID t = TemplateID t0" and "Version t = Version t0"
  shows "consistent C r'"
proof -
  from consistent_Some [OF assms(1,2)] have key: "k \<noteq> []"
    and id0: "TemplateID t0 = k" and one: "1 \<le> sint (Version t0)"
    and num: "k \<notin> C \<Longrightarrow> numbered t0 (versionsOf r k)"
    by simp_all
  have same: "versionsOf r' k' = versionsOf r k'" for k'
    using assms(4) by (simp add: versionsOf_def)
  show ?thesis
  proof (rule consistent_update [OF assms(1,3)])
    show "versionsOf r' k = versionsOf r k" by (rule same)
    show "versionsOf r' k' = versionsOf r k'" if "k' \<noteq> k" for k' by (rule same)
    show "k \<noteq> []" by (rule key)
    show "TemplateID t = k" using assms(5) id0 by simp
    show "1 \<le> sint (Version t)" using one assms(6) by simp
    show "C \<subseteq> C" ..
    show "numbered t (versionsOf r k)" if "k \<notin> C"
      using num [OF that] assms(6) by (rule numbered_same_version)
  qed
qed

lemma consistent_delete:
  assumes "consistent C r" and "Service_DeleteTemplate now r tenantID templateID = Inr r'"
  shows "consistent C r'"
proof -
  from assms(2) obtain t0 where t0: "templates r templateID = Some t0"
    and r': "r' = r\<lparr>templates := (templates r)(templateID \<mapsto> t0\<lparr>DeletedAt := Some now\<rparr>)\<rparr>"
    by (auto simp: Service_DeleteTemplate_def Repo_SoftDeleteTemplate_def
        split: option.splits if_splits)
  show ?thesis
    by (rule consistent_touch [OF assms(1) t0, where t = "t0\<lparr>DeletedAt := Some now\<rparr>"])
       (simp_all add: r')
qed

lemma consistent_restore:
  assumes "consistent C r" and "Service_RestoreTemplate r tenantID templateID = Inr (restored, r')"
  shows "consistent C r'"
proof -
  from assms(2) obtain t0 where t0: "templates r templateID = Some t0"
    and r': "r' = r\<lparr>templates := (templates r)(templateID \<mapsto> t0\<lparr>DeletedAt := None\<rparr>)\<rparr>"
    by (auto simp: Service_RestoreTemplate_def Repo_RestoreTemplate_def
        split: option.splits if_splits)
  show ?thesis
    by (rule consistent_touch [OF assms(1) t0, where t = "t0\<lparr>DeletedAt := None\<rparr>"])
       (simp_all add: r')
qed

lemma Repo_DuplicateTemplate_Inr:
  assumes "Repo_DuplicateTemplate newID now r tenantID templateID opt = Inr (clone, r')"
  obtains src where
    "templates r templateID = Some src"
    "templates r (newID 0) = None"
    "TemplateID clone = newID 0" "Version clone = 1"
    "templates r' = (templates r)(newID 0 \<mapsto> clone)"
    "versions r' = (versions r)(newID 0 \<mapsto> versionsOf r (newID 0)
        @ [\<lparr>VersionID = newID 1, VTemplateID = newID 0, VersionNumber = 1,
             ChangeSummary = ''duplicated from '' @ TemplateID src,
             VJSONSchemaURL = JSONSchemaURL src, VCreatedBy = DUpdatedBy opt,
             VCreatedAt = now, IsCurrent = True\<rparr>])"
proof -
  from assms obtain src where src: "templates r templateID = Some src"
    by (auto simp: Repo_DuplicateTemplate_def split: option.splits)
  define c where "c = src\<lparr>TemplateID := newID 0, CreatedAt := now, UpdatedAt := now,
                            CreatedBy := DCreatedBy opt, UpdatedBy := DUpdatedBy opt,
                            DeletedAt := None, DocumentsCount := 0, LastUsedAt := None,
                            Version := 1,
                            Name := (if NameOverride opt \<noteq> [] then NameOverride opt
                                     else Name src @ '' Copy''),
                            Description := (if DescriptionOverride opt \<noteq> []
                                            then DescriptionOverride opt else Description src)\<rparr>"
  have c_id: "TemplateID c = newID 0" and c_ver: "Version c = 1"
    and c_url: "JSONSchemaURL c = JSONSchemaURL src"
    by (simp_all add: c_def)
  note run = assms [unfolded Repo_DuplicateTemplate_def src option.case Let_def, folded c_def]
  from run have fresh: "templates r (newID 0) = None"
    and clone: "clone = c"
    and r': "r' = r\<lparr>templates := (templates r)(newID 0 \<mapsto> c),
                    versions := (versions r)(newID 0 \<mapsto> versionsOf r (newID 0)
        @ [\<lparr>VersionID = newID 1, VTemplateID = newID 0, VersionNumber = 1,
             ChangeSummary = ''duplicated from '' @ TemplateID src,
             VJSONSchemaURL = JSONSchemaURL src, VCreatedBy = DUpdatedBy opt,
             VCreatedAt = now, IsCurrent = True\<rparr>])\<rparr>"
    by (auto simp: c_id c_ver c_url split: option.splits if_splits)
  show thesis
    by (rule that [OF src fresh]) (simp_all add: clone r' c_id c_ver)
qed

text \<open>The loop that copies the history writes the history of the clone only.\<close>

lemma copyVersions_frame:
  "copyVersions newID i r tenantID tpl vs = (res, r')
   \<Longrightarrow> templates r' = templates r
       \<and> (\<forall>k. k \<noteq> TemplateID tpl \<longrightarrow> versionsOf r' k = versionsOf r k)"
proof (induction vs arbitrary: i r)
  case Nil
  then show ?case by simp
next
  case (Cons v0 vs)
  define v where "v = (if IsCurrent v0
      then v0\<lparr>VTemplateID := TemplateID tpl, VersionID := newID i, VersionNumber := Version tpl\<rparr>
      else v0\<lparr>VTemplateID := TemplateID tpl, VersionID := newID i\<rparr>)"
  have key: "VTemplateID v = TemplateID tpl" by (simp add: v_def)
  have step: "copyVersions newID i r tenantID tpl (v0 # vs)
      = (case Repo_CreateVersion r tenantID v of
           Inl err \<Rightarrow> (Some err, r)
         | Inr (created, r1) \<Rightarrow> copyVersions newID (Suc i) r1 tenantID tpl vs)"
    by (simp add: v_def Let_def)
  show ?case
  proof (cases "Repo_CreateVersion r tenantID v")
    case (Inl err)
    with Cons.prems step have "r' = r" by simp
    then show ?thesis by simp
  next
    case (Inr p)
    obtain created r1 where p: "p = (created, r1)" by (cases p)
    with Inr have cv: "Repo_CreateVersion r tenantID v = Inr (created, r1)" by simp
    from Repo_CreateVersion_Inr(1) [OF cv] key
    have r1: "templates r1 = templates r"
      "\<And>k. k \<noteq> TemplateID tpl \<Longrightarrow> versionsOf r1 k = versionsOf r k"
      by (simp_all add: versionsOf_def)
    from Cons.prems step cv
    have "copyVersions newID (Suc i) r1 tenantID tpl vs = (res, r')" by simp
    from Cons.IH [OF this] r1 show ?thesis by simp
  qed
qed

lemma Service_DuplicateTemplate_frame:
  assumes "Repo_DuplicateTemplate newID now r tenantID templateID opt = Inr (clone, r1)"
    and "Service_DuplicateTemplate newID now r tenantID templateID opt = (res, r')"
  shows "templates r' = templates r1"
    and "k \<noteq> TemplateID clone \<Longrightarrow> versionsOf r' k = versionsOf r1 k"
proof -
  have "templates r' = templates r1
        \<and> (\<forall>k. k \<noteq> TemplateID clone \<longrightarrow> versionsOf r' k = versionsOf r1 k)"
  proof (cases "CopyVersions opt")
    case False
    with assms have "r' = r1" by (simp add: Service_DuplicateTemplate_def)
    then show ?thesis by simp
  next
    case True
    show ?thesis
    proof (cases "Repo_ListVersions r1 tenantID templateID")
      case (Inl err)
      with True assms have "r' = r1" by (simp add: Service_DuplicateTemplate_def)
      then show ?thesis by simp
    next
      case (Inr vs)
      obtain res2 r2 where cv: "copyVersions newID 2 r1 tenantID clone vs = (res2, r2)"
        by (cases "copyVersions newID 2 r1 tenantID clone vs")
      with True Inr assms have "r' = r2"
        by (cases res2) (simp_all add: Service_DuplicateTemplate_def)
      with copyVersions_frame [OF cv] show ?thesis by simp
    qed
  qed
  then show "templates r' = templates r1"
    and "k \<noteq> TemplateID clone \<Longrightarrow> versionsOf r' k = versionsOf r1 k"
    by simp_all
qed

text \<open>
  \<open>Duplicate\<close> inserts the clone under a fresh identifier and leaves every other template
  and history as it was; with \<open>copy_versions\<close> the clone joins the set of clones, without
  it the history of the clone is the entry ``duplicated from'' with number 1.
\<close>

lemma consistent_duplicate:
  assumes "consistent C r" and "newID 0 \<noteq> []"
    and "Service_DuplicateTemplate newID now r tenantID templateID opt = (res, r')"
  shows "consistent (if CopyVersions opt \<and> templates r (newID 0) = None
                        \<and> templates r' (newID 0) \<noteq> None
                     then insert (newID 0) C else C) r'"
proof (cases "Repo_DuplicateTemplate newID now r tenantID templateID opt")
  case (Inl err)
  with assms(3) have "r' = r" by (simp add: Service_DuplicateTemplate_def)
  with assms(1) show ?thesis by auto
next
  case (Inr p)
  obtain clone r1 where p: "p = (clone, r1)" by (cases p)
  with Inr have dup: "Repo_DuplicateTemplate newID now r tenantID templateID opt = Inr (clone, r1)"
    by simp
  then obtain src where src: "templates r templateID = Some src"
    and fresh: "templates r (newID 0) = None"
    and id: "TemplateID clone = newID 0" and ver: "Version clone = 1"
    and tpls1: "templates r1 = (templates r)(newID 0 \<mapsto> clone)"
    and vers1: "versions r1 = (versions r)(newID 0 \<mapsto> versionsOf r (newID 0)
        @ [\<lparr>VersionID = newID 1, VTemplateID = newID 0, VersionNumber = 1,
             ChangeSummary = ''duplicated from '' @ TemplateID src,
             VJSONSchemaURL = JSONSchemaURL src, VCreatedBy = DUpdatedBy opt,
             VCreatedAt = now, IsCurrent = True\<rparr>])"
    by (rule Repo_DuplicateTemplate_Inr)
  from consistent_None [OF assms(1) fresh] have empty: "versionsOf r (newID 0) = []" .
  from Service_DuplicateTemplate_frame [OF dup assms(3)] id
  have tpls': "templates r' = templates r1"
    and vers': "\<And>k. k \<noteq> newID 0 \<Longrightarrow> versionsOf r' k = versionsOf r1 k"
    by simp_all
  from tpls' tpls1 have tpls: "templates r' = (templates r)(newID 0 \<mapsto> clone)" by simp
  have other: "versionsOf r' k' = versionsOf r k'" if "k' \<noteq> newID 0" for k'
    using vers' [OF that] versionsOf_other [OF vers1 that] by simp
  have one: "1 \<le> sint (Version clone)" using ver by simp
  show ?thesis
  proof (cases "CopyVersions opt")
    case True
    with fresh tpls
    have C': "(if CopyVersions opt \<and> templates r (newID 0) = None
                  \<and> templates r' (newID 0) \<noteq> None
               then insert (newID 0) C else C) = insert (newID 0) C"
      by simp
    show ?thesis
      unfolding C'
      by (rule consistent_update [OF assms(1) tpls refl other assms(2) id one]) auto
  next
    case False
    with dup assms(3) have "r' = r1" by (simp add: Service_DuplicateTemplate_def)
    with vers1 empty
    have hist: "versionsOf r' (newID 0) = [\<lparr>VersionID = newID 1, VTemplateID = newID 0,
             VersionNumber = 1, ChangeSummary = ''duplicated from '' @ TemplateID src,
             VJSONSchemaURL = JSONSchemaURL src, VCreatedBy = DUpdatedBy opt,
             VCreatedAt = now, IsCurrent = True\<rparr>]"
      by (simp add: versionsOf_def)
    from False
    have C': "(if CopyVersions opt \<and> templates r (newID 0) = None
                  \<and> templates r' (newID 0) \<noteq> None
               then insert (newID 0) C else C) = C"
      by simp
    show ?thesis
      unfolding C'
    proof (rule consistent_update [OF assms(1) tpls hist other assms(2) id one])
      show "numbered clone [\<lparr>VersionID = newID 1, VTemplateID = newID 0,
             VersionNumber = 1, ChangeSummary = ''duplicated from '' @ TemplateID src,
             VJSONSchemaURL = JSONSchemaURL src, VCreatedBy = DUpdatedBy opt,
             VCreatedAt = now, IsCurrent = True\<rparr>]"
        using ver by (rule numbered_first) simp
      show "C \<subseteq> C" ..
    qed
  qed
qed

lemma Repo_RestoreVersion_Inr:
  assumes "Repo_RestoreVersion now r tenantID templateID versionNumber = Inr (clone, r')"
  obtains tpl restored where
    "templates r templateID = Some tpl"
    "find (\<lambda>v. VersionNumber v = versionNumber) (versionsOf r templateID) = Some restored"
    "clone = restored\<lparr>IsCurrent := True, VersionNumber := Version tpl + 1, VCreatedAt := now\<rparr>"
    "templates r' = (templates r)(templateID \<mapsto>
        tpl\<lparr>JSONSchemaURL := VJSONSchemaURL restored, Version := Version tpl + 1,
            UpdatedAt := now, UpdatedBy := VCreatedBy restored\<rparr>)"
    "versions r' = (versions r)(templateID \<mapsto> versionsOf r templateID @ [clone])"
  using assms
  by (auto simp: Repo_RestoreVersion_def Let_def split: option.splits if_splits)

lemma consistent_restore_version:
  assumes "consistent C r" and "below_max r templateID"
    and "Service_RestoreVersion now r tenantID templateID versionNumber = Inr (v, r')"
  shows "consistent C r'"
proof -
  from assms(3) have "Repo_RestoreVersion now r tenantID templateID versionNumber = Inr (v, r')"
    by (simp add: Service_RestoreVersion_def)
  then obtain tpl restored where
    t0: "templates r templateID = Some tpl"
    and v: "v = restored\<lparr>IsCurrent := True, VersionNumber := Version tpl + 1, VCreatedAt := now\<rparr>"
    and tpls: "templates r' = (templates r)(templateID \<mapsto>
        tpl\<lparr>JSONSchemaURL := VJSONSchemaURL restored, Version := Version tpl + 1,
            UpdatedAt := now, UpdatedBy := VCreatedBy restored\<rparr>)"
    and vers: "versions r' = (versions r)(templateID \<mapsto> versionsOf r templateID @ [v])"
    by (rule Repo_RestoreVersion_Inr)
  from consistent_Some [OF assms(1) t0] have key: "templateID \<noteq> []"
    and id0: "TemplateID tpl = templateID" and one: "1 \<le> sint (Version tpl)"
    and num: "templateID \<notin> C \<Longrightarrow> numbered tpl (versionsOf r templateID)"
    by simp_all
  from assms(2) t0 have below: "Version tpl \<noteq> maxInt" by (simp add: below_max_def)
  show ?thesis
  proof (rule consistent_update [OF assms(1) tpls])
    show "versionsOf r' templateID = versionsOf r templateID @ [v]"
      by (rule versionsOf_eq [OF vers])
    show "versionsOf r' k' = versionsOf r k'" if "k' \<noteq> templateID" for k'
      using versionsOf_other [OF vers that] .
    show "templateID \<noteq> []" by (rule key)
    show "TemplateID (tpl\<lparr>JSONSchemaURL := VJSONSchemaURL restored, Version := Version tpl + 1,
            UpdatedAt := now, UpdatedBy := VCreatedBy restored\<rparr>) = templateID"
      using id0 by simp
    show "1 \<le> sint (Version (tpl\<lparr>JSONSchemaURL := VJSONSchemaURL restored,
            Version := Version tpl + 1, UpdatedAt := now, UpdatedBy := VCreatedBy restored\<rparr>))"
      using one sint_succ_below_max [OF below] by simp
    show "C \<subseteq> C" ..
    show "numbered (tpl\<lparr>JSONSchemaURL := VJSONSchemaURL restored, Version := Version tpl + 1,
            UpdatedAt := now, UpdatedBy := VCreatedBy restored\<rparr>) (versionsOf r templateID @ [v])"
      if "templateID \<notin> C"
      using num [OF that] below by (rule numbered_append) (simp_all add: v)
  qed
qed

lemma consistent_new: "consistent {} NewInMemoryRepository"
  by (simp add: consistent_def versionsOf_def NewInMemoryRepository_def)

lemma reachable_consistent: "reachable r clones \<Longrightarrow> consistent clones r"
proof (induction rule: reachable.induct)
  case reach_new
  show ?case by (rule consistent_new)
next
  case (reach_create r clones newID now tpl res r')
  then show ?case by (blast intro: consistent_create)
next
  case (reach_update r clones mutate templateID newID now tenantID updatedBy changeSummary res r')
  then show ?case by (blast intro: consistent_update_op)
next
  case (reach_delete r clones now tenantID templateID r')
  then show ?case by (blast intro: consistent_delete)
next
  case (reach_restore r clones tenantID templateID restored r')
  then show ?case by (blast intro: consistent_restore)
next
  case (reach_duplicate r clones newID now tenantID templateID opt res r')
  from reach_duplicate.IH reach_duplicate.hyps(2,3) show ?case
    by (rule consistent_duplicate)
next
  case (reach_restore_version r clones templateID now tenantID versionNumber v r')
  then show ?case by (blast intro: consistent_restore_version)
qed

lemma sint_numbers_distinct:
  assumes "map (\<lambda>v. sint (VersionNumber v)) vs = [1..n]"
  shows "distinct (map VersionNumber vs)"
proof -
  have "map sint (map VersionNumber vs) = [1..n]"
    using assms by (simp add: comp_def)
  then have "distinct (map sint (map VersionNumber vs))"
    by (simp only: distinct_upto)
  then show ?thesis by (rule distinct_map [THEN iffD1, THEN conjunct1])
qed

text \<open>
  C4, as the code has it: the calls of the service run one after another (see
  \<open>reachable\<close>: a call of the service is a step, the generator returns non-empty
  identifiers for templates, the closures of \<open>Update\<close> leave the identifier and the
  version counter alone, and the counter stays below the largest \<open>int\<close>). Then in every
  state that the service reaches, whatever calls were made and whatever they returned,
  including calls of \<open>Duplicate\<close> with \<open>copy_versions\<close>, every template that is not
  itself a clone made by a \<open>Duplicate\<close> with \<open>copy_versions\<close> has a history whose
  version numbers are 1, 2, ... up to the version counter of the template, in this
  order: they are unique, and they are the values the counter has held, since it starts
  at 1 and moves by steps of 1.
\<close>

theorem version_numbers_unique:
  assumes "reachable r clones" and "templates r k = Some t" and "k \<notin> clones"
  shows "distinct (map VersionNumber (versionsOf r k))
    \<and> map (\<lambda>v. sint (VersionNumber v)) (versionsOf r k) = [1..sint (Version t)]"
proof -
  from reachable_consistent [OF assms(1)] assms(2,3)
  have "numbered t (versionsOf r k)" by (simp add: consistent_Some)
  then have "map (\<lambda>v. sint (VersionNumber v)) (versionsOf r k) = [1..sint (Version t)]"
    by (simp add: numbered_def)
  with sint_numbers_distinct [OF this] show ?thesis by simp
qed

lemma ex3_restore:
  "Service_RestoreVersion 30 exRepo2 ''t1'' ''tpl-1'' 1
     = Inr (exVersion1\<lparr>VersionNumber := 3, VCreatedAt := 30\<rparr>, exRepo3)"
  unfolding exRepo3_def
  by (simp add: Service_RestoreVersion_def Repo_RestoreVersion_def exRepo2_eq versionsOf_def
      exVersion1_def exTemplate_def Let_def)

lemma exRepo3_eq:
  "exRepo3 = \<lparr>templates = [''tpl-1'' \<mapsto> exTemplate\<lparr>TemplateID := ''tpl-1'', CreatedAt := 10,
                              UpdatedAt := 30, Version := 3, Name := ''Warranty EU v2''\<rparr>],
              versions = [''tpl-1'' \<mapsto> [exVersion1\<lparr>IsCurrent := False\<rparr>,
                             \<lparr>VersionID = ''ver-2'', VTemplateID = ''tpl-1'', VersionNumber = 2,
                              ChangeSummary = ''rename'', VJSONSchemaURL = ''s3://schemas/v1.json'',
                              VCreatedBy = ''u1'', VCreatedAt = 20, IsCurrent = True\<rparr>,
                             exVersion1\<lparr>VersionNumber := 3, VCreatedAt := 30\<rparr>]]\<rparr>"
  unfolding exRepo3_def
  by (simp add: Service_RestoreVersion_def Repo_RestoreVersion_def exRepo2_eq versionsOf_def
      exVersion1_def exTemplate_def Let_def)

lemma ex_reachable: "reachable exRepo3 {}"
proof -
  have r1: "reachable exRepo1 {}"
    by (rule reach_create [OF reach_new _ ex1_create]) (simp add: fixedIDs_def)
  have b1: "below_max exRepo1 ''tpl-1''"
    by (simp add: below_max_def exRepo1_eq exTemplate_def maxInt_def)
  have r2: "reachable exRepo2 {}"
    by (rule reach_update [OF r1 exRename_keeps b1 ex2_update])
  have b2: "below_max exRepo2 ''tpl-1''"
    by (simp add: below_max_def exRepo2_eq exTemplate_def maxInt_def)
  show ?thesis
    by (rule reach_restore_version [OF r2 b2 ex3_restore])
qed

lemma exRepoCopy_eq:
  "exRepoCopy = \<lparr>templates = [''tpl-1'' \<mapsto> exTemplate\<lparr>TemplateID := ''tpl-1'', CreatedAt := 10,
                                               UpdatedAt := 10, Version := 1\<rparr>,
                              ''tpl-2'' \<mapsto> exTemplate\<lparr>TemplateID := ''tpl-2'', CreatedAt := 20,
                                               UpdatedAt := 20, Version := 1,
                                               Name := ''Warranty EU Copy''\<rparr>],
                versions = [''tpl-1'' \<mapsto> [exVersion1],
                            ''tpl-2'' \<mapsto> [\<lparr>VersionID = ''ver-2'', VTemplateID = ''tpl-2'',
                                           VersionNumber = 1,
                                           ChangeSummary = ''duplicated from tpl-1'',
                                           VJSONSchemaURL = ''s3://schemas/v1.json'',
                                           VCreatedBy = ''u1'', VCreatedAt = 20,
                                           IsCurrent = False\<rparr>,
                                          exVersion1\<lparr>VersionID := ''ver-3'',
                                                     VTemplateID := ''tpl-2''\<rparr>]]\<rparr>"
  unfolding exRepoCopy_def
  by (simp add: Service_DuplicateTemplate_def Repo_DuplicateTemplate_def Repo_ListVersions_def
      exCopyOptions_def exRepo1_eq run_defs)

lemma exCopy_reachable: "reachable exRepoCopy {''tpl-2''}"
proof -
  have r1: "reachable exRepo1 {}"
    by (rule reach_create [OF reach_new _ ex1_create]) (simp add: fixedIDs_def)
  have run: "Service_DuplicateTemplate (fixedIDs [''tpl-2'', ''ver-2'', ''ver-3'']) 20 exRepo1
               ''t1'' ''tpl-1'' exCopyOptions
             = (fst (Service_DuplicateTemplate (fixedIDs [''tpl-2'', ''ver-2'', ''ver-3'']) 20
                       exRepo1 ''t1'' ''tpl-1'' exCopyOptions), exRepoCopy)"
    by (simp add: exRepoCopy_def)
  have id: "fixedIDs [''tpl-2'', ''ver-2'', ''ver-3''] 0 \<noteq> []"
    by (simp add: fixedIDs_def)
  from reach_duplicate [OF r1 id run] show ?thesis
    by (simp add: exCopyOptions_def exRepo1_eq exRepoCopy_eq fixedIDs_def)
qed

theorem version_numbers_unique_witness:
  "reachable exRepo3 {}
   \<and> map_option (\<lambda>t. sint (Version t)) (templates exRepo3 ''tpl-1'') = Some 3
   \<and> ''tpl-1'' \<notin> ({} :: string set)
   \<and> map (\<lambda>v. sint (VersionNumber v)) (versionsOf exRepo3 ''tpl-1'') = [1, 2, 3]
   \<and> distinct (map VersionNumber (versionsOf exRepo3 ''tpl-1''))
   \<and> reachable exRepoCopy {''tpl-2''}
   \<and> map_option (\<lambda>t. sint (Version t)) (templates exRepoCopy ''tpl-1'') = Some 1
   \<and> ''tpl-1'' \<notin> {''tpl-2''}
   \<and> map (\<lambda>v. sint (VersionNumber v)) (versionsOf exRepoCopy ''tpl-1'') = [1]
   \<and> distinct (map VersionNumber (versionsOf exRepoCopy ''tpl-1''))"
proof -
  have t: "templates exRepo3 ''tpl-1'' = Some (exTemplate\<lparr>TemplateID := ''tpl-1'', CreatedAt := 10,
                              UpdatedAt := 30, Version := 3, Name := ''Warranty EU v2''\<rparr>)"
    by (simp add: exRepo3_eq)
  have vs: "map (\<lambda>v. sint (VersionNumber v)) (versionsOf exRepo3 ''tpl-1'') = [1, 2, 3]"
    by (simp add: exRepo3_eq versionsOf_def exVersion1_def)
  have no: "''tpl-1'' \<notin> ({} :: string set)" by simp
  have tc: "templates exRepoCopy ''tpl-1'' = Some (exTemplate\<lparr>TemplateID := ''tpl-1'',
                              CreatedAt := 10, UpdatedAt := 10, Version := 1\<rparr>)"
    by (simp add: exRepoCopy_eq)
  have vc: "map (\<lambda>v. sint (VersionNumber v)) (versionsOf exRepoCopy ''tpl-1'') = [1]"
    by (simp add: exRepoCopy_eq versionsOf_def exVersion1_def)
  have nc: "''tpl-1'' \<notin> {''tpl-2''}" by simp
  from version_numbers_unique [OF ex_reachable t no]
    version_numbers_unique [OF exCopy_reachable tc nc]
    ex_reachable exCopy_reachable vs vc
  show ?thesis by (simp add: t tc exTemplate_def)
qed

text \<open>
  The claim C4 as stated includes the clones made with \<open>copy_versions\<close>. There it
  fails: the clone of a template with one entry gets the entry ``duplicated from'' with
  number 1, and the copy of the current entry of the source, renumbered to the version of
  the clone, which is 1 as well.
\<close>

theorem version_numbers_counterexample:
  "(case Service_DuplicateTemplate (fixedIDs [''tpl-2'', ''ver-2'', ''ver-3'']) 20 exRepo1
           ''t1'' ''tpl-1'' exCopyOptions of
      (Inl e, r) \<Rightarrow> False
    | (Inr clone, r) \<Rightarrow> TemplateID clone = ''tpl-2'' \<and> Version clone = 1
         \<and> map VersionNumber (versionsOf r ''tpl-2'') = [1, 1]
         \<and> map IsCurrent (versionsOf r ''tpl-2'') = [False, True]
         \<and> \<not> distinct (map VersionNumber (versionsOf r ''tpl-2'')))"
  by (simp add: Service_DuplicateTemplate_def Repo_DuplicateTemplate_def Repo_ListVersions_def
      exCopyOptions_def exRepo1_eq run_defs)


text \<open>
  The calls of the service have to run one after another for this. The lock is that of
  the repository, taken by each of its methods, and \<open>UpdateTemplate\<close> of the service
  makes three calls of the repository. When two updates of the same template overlap,
  so that both read the template before either writes it, both write the counter 2 and
  both append an entry with number 2.
\<close>

lemma interleaved_updates_repeat_number:
  "(case Repo_GetTemplate exRepo1 ''t1'' ''tpl-1'' of
      Inl e \<Rightarrow> False
    | Inr tpl0 \<Rightarrow>
        let tplA = tpl0\<lparr>Name := ''Warranty A'', Version := Version tpl0 + 1,
                        UpdatedBy := ''u1'', UpdatedAt := 20\<rparr>;
            tplB = tpl0\<lparr>Name := ''Warranty B'', Version := Version tpl0 + 1,
                        UpdatedBy := ''u2'', UpdatedAt := 21\<rparr>
        in (case Repo_UpdateTemplate exRepo1 tplA of
              Inl e \<Rightarrow> False
            | Inr (updatedA, r1) \<Rightarrow>
                (case Repo_UpdateTemplate r1 tplB of
                   Inl e \<Rightarrow> False
                 | Inr (updatedB, r2) \<Rightarrow>
                     (case Repo_CreateVersion r2 ''t1''
                             \<lparr>VersionID = ''ver-2'', VTemplateID = TemplateID tplA,
                              VersionNumber = Version tplA, ChangeSummary = ''rename to A'',
                              VJSONSchemaURL = JSONSchemaURL tplA, VCreatedBy = ''u1'',
                              VCreatedAt = UpdatedAt tplA, IsCurrent = True\<rparr> of
                        Inl e \<Rightarrow> False
                      | Inr (versionA, r3) \<Rightarrow>
                          (case Repo_CreateVersion r3 ''t1''
                                  \<lparr>VersionID = ''ver-3'', VTemplateID = TemplateID tplB,
                                   VersionNumber = Version tplB, ChangeSummary = ''rename to B'',
                                   VJSONSchemaURL = JSONSchemaURL tplB, VCreatedBy = ''u2'',
                                   VCreatedAt = UpdatedAt tplB, IsCurrent = True\<rparr> of
                             Inl e \<Rightarrow> False
                           | Inr (versionB, r4) \<Rightarrow>
                               map_option Version (templates r4 ''tpl-1'') = Some 2
                               \<and> map VersionNumber (versionsOf r4 ''tpl-1'') = [1, 2, 2])))))"
  by (simp add: exRepo1_eq run_defs)

section \<open>Restoring a version, in general\<close>

text \<open>
  What the two evaluations of \<open>RestoreVersion\<close> above show holds at every successful
  call: the entries that were current stay current beside the new one, the new entry
  has the identifier of the entry it restores, and the counter moves up by one as long
  as it is below the largest \<open>int\<close>.
\<close>

lemma restore_version_keeps_flags:
  assumes "Repo_RestoreVersion now r tenantID templateID versionNumber = Inr (clone, r')"
  shows "filter IsCurrent (versionsOf r' templateID)
           = filter IsCurrent (versionsOf r templateID) @ [clone]"
proof -
  from assms obtain tpl restored where
    t0: "templates r templateID = Some tpl"
    and found: "find (\<lambda>v. VersionNumber v = versionNumber) (versionsOf r templateID) = Some restored"
    and clone: "clone = restored\<lparr>IsCurrent := True, VersionNumber := Version tpl + 1, VCreatedAt := now\<rparr>"
    and tpls: "templates r' = (templates r)(templateID \<mapsto>
        tpl\<lparr>JSONSchemaURL := VJSONSchemaURL restored, Version := Version tpl + 1,
            UpdatedAt := now, UpdatedBy := VCreatedBy restored\<rparr>)"
    and vers: "versions r' = (versions r)(templateID \<mapsto> versionsOf r templateID @ [clone])"
    by (rule Repo_RestoreVersion_Inr)
  from clone vers show ?thesis by (simp add: versionsOf_eq)
qed

lemma restore_version_copies_identifier:
  assumes "Repo_RestoreVersion now r tenantID templateID versionNumber = Inr (clone, r')"
  shows "VersionID clone \<in> VersionID ` set (versionsOf r templateID)"
proof -
  from assms obtain tpl restored where
    t0: "templates r templateID = Some tpl"
    and found: "find (\<lambda>v. VersionNumber v = versionNumber) (versionsOf r templateID) = Some restored"
    and clone: "clone = restored\<lparr>IsCurrent := True, VersionNumber := Version tpl + 1, VCreatedAt := now\<rparr>"
    and tpls: "templates r' = (templates r)(templateID \<mapsto>
        tpl\<lparr>JSONSchemaURL := VJSONSchemaURL restored, Version := Version tpl + 1,
            UpdatedAt := now, UpdatedBy := VCreatedBy restored\<rparr>)"
    and vers: "versions r' = (versions r)(templateID \<mapsto> versionsOf r templateID @ [clone])"
    by (rule Repo_RestoreVersion_Inr)
  from found have "restored \<in> set (versionsOf r templateID)"
    by (auto simp: find_Some_iff)
  with clone show ?thesis by force
qed

lemma restore_version_counter:
  assumes "Repo_RestoreVersion now r tenantID templateID versionNumber = Inr (clone, r')"
    and "templates r templateID = Some tpl" and "Version tpl \<noteq> maxInt"
  shows "\<exists>tpl'. templates r' templateID = Some tpl'
           \<and> sint (Version tpl') = sint (Version tpl) + 1
           \<and> VersionNumber clone = Version tpl'"
proof -
  from assms(1) obtain t0 restored where
    t0: "templates r templateID = Some t0"
    and found: "find (\<lambda>v. VersionNumber v = versionNumber) (versionsOf r templateID) = Some restored"
    and clone: "clone = restored\<lparr>IsCurrent := True, VersionNumber := Version t0 + 1, VCreatedAt := now\<rparr>"
    and tpls: "templates r' = (templates r)(templateID \<mapsto>
        t0\<lparr>JSONSchemaURL := VJSONSchemaURL restored, Version := Version t0 + 1,
            UpdatedAt := now, UpdatedBy := VCreatedBy restored\<rparr>)"
    and vers: "versions r' = (versions r)(templateID \<mapsto> versionsOf r templateID @ [clone])"
    by (rule Repo_RestoreVersion_Inr)
  from t0 clone tpls assms(2,3) show ?thesis by (simp add: sint_succ_below_max)
qed

section \<open>Tenant isolation and the update closure\<close>

text \<open>
  The isolation of tenants is about the template a call names. The closure of
  \<open>UpdateTemplate\<close> is the caller's code and works on the whole record: a call of
  tenant \<open>t2\<close> on its own template, with a closure that rewrites the identifier and the
  tenant of the copy, replaces the template of tenant \<open>t1\<close> and then fails with
  \<open>ErrNotFound\<close> when the version is appended.
\<close>

lemma exRepoT2_eq:
  "exRepoT2 = \<lparr>templates = [''tpl-1'' \<mapsto> exTemplate\<lparr>TemplateID := ''tpl-1'', CreatedAt := 10,
                                             UpdatedAt := 10, Version := 1\<rparr>,
                            ''tpl-2'' \<mapsto> exTemplate\<lparr>TemplateID := ''tpl-2'', TenantID := ''t2'',
                                             Name := ''Label US'', CreatedAt := 20,
                                             UpdatedAt := 20, Version := 1\<rparr>],
              versions = [''tpl-1'' \<mapsto> [exVersion1],
                          ''tpl-2'' \<mapsto> [exVersion1\<lparr>VersionID := ''ver-2'', VTemplateID := ''tpl-2'',
                                           VCreatedAt := 20\<rparr>]]\<rparr>"
  unfolding exRepoT2_def
  by (simp add: exRepo1_eq run_defs)

lemma update_closure_crosses_tenants:
  "(case Service_UpdateTemplate (fixedIDs [''ver-3'']) 30 exRepoT2 ''t2'' ''tpl-2'' exHijack
           ''u2'' ''x'' of
      (res, r) \<Rightarrow> res = Inl ErrNotFound
         \<and> map_option TenantID (templates exRepoT2 ''tpl-1'') = Some ''t1''
         \<and> map_option Name (templates exRepoT2 ''tpl-1'') = Some ''Warranty EU''
         \<and> map_option Name (templates r ''tpl-1'') = Some ''Label US'')"
  by (simp add: exRepoT2_eq run_defs exHijack_def)

end
